theory Spec2Isabelle
  imports Complex_Main "HOL-Library.Word" "HOL-Library.Multiset" "HOL-Library.Log_Nat"
begin

section \<open>Basic types\<close>

text \<open>
  Go's \<open>[]byte\<close> is a list of 8-bit words, \<open>uint64\<close> and \<open>int64\<close> are 64-bit
  words: \<open>+\<close> wraps around as in Go, \<open>unat\<close> reads a \<open>uint64\<close>, \<open>sint\<close> reads an
  \<open>int64\<close>; \<open>\<le>\<close> and \<open><\<close> on words compare unsigned, and two \<open>int64\<close> are
  compared through \<open>sint\<close>.
  A map keyed by \<open>string(peerId)\<close> is keyed by the bytes of the peer id.
\<close>

type_synonym bytes = "8 word list"
type_synonym uint64 = "64 word"
type_synonym int64 = "64 word"
type_synonym uint32 = "32 word"

section \<open>Peer scores (node/p2p/blossomsub.go)\<close>

text \<open>
  Of the \<open>BlossomSub\<close> struct only the score map matters to the score operations.
  Both constructors create it with \<open>make(map[string]int64)\<close>, so it is never nil.
  The mutex \<open>peerScoreMx\<close> is taken and released inside each operation; in a
  sequential model it has no effect and is left out.
\<close>

record BlossomSub =
  peerScore :: "bytes \<rightharpoonup> int64"

text \<open>The state the constructors build: an empty score map.\<close>

definition NewBlossomSub :: BlossomSub where
  "NewBlossomSub = \<lparr>peerScore = Map.empty\<rparr>"

text \<open>Reading a Go map at an absent key gives the zero value of \<open>int64\<close>.\<close>

definition GetPeerScore :: "BlossomSub \<Rightarrow> bytes \<Rightarrow> int64" where
  "GetPeerScore b peerId = (case peerScore b peerId of None \<Rightarrow> 0 | Some score \<Rightarrow> score)"

definition SetPeerScore :: "BlossomSub \<Rightarrow> bytes \<Rightarrow> int64 \<Rightarrow> BlossomSub" where
  "SetPeerScore b peerId score = b\<lparr>peerScore := (peerScore b)(peerId \<mapsto> score)\<rparr>"

definition AddPeerScore :: "BlossomSub \<Rightarrow> bytes \<Rightarrow> int64 \<Rightarrow> BlossomSub" where
  "AddPeerScore b peerId scoreDelta =
     (case peerScore b peerId of
        None \<Rightarrow> b\<lparr>peerScore := (peerScore b)(peerId \<mapsto> scoreDelta)\<rparr>
      | Some score \<Rightarrow> b\<lparr>peerScore := (peerScore b)(peerId \<mapsto> score + scoreDelta)\<rparr>)"

section \<open>Frames, errors and the engine (node/consensus/data/consensus_frames.go)\<close>

text \<open>
  The protobuf messages are not among the source files; their records hold the fields
  the engine reads and writes. A Go pointer that may be nil is an \<open>option\<close>.
  \<open>FrameNumber\<close> is a \<open>uint64\<close>, \<open>Timestamp\<close> an \<open>int64\<close> (milliseconds).
\<close>

record Ed448PublicKey =
  KeyValue :: bytes

record Ed448Signature =
  Signature :: bytes
  PublicKey :: "Ed448PublicKey option"

record InclusionCommitment =
  icFilter :: bytes
  icFrameNumber :: uint64
  TypeUrl :: string
  Commitment :: bytes
  Data :: bytes
  Position :: uint64

record InclusionAggregateProof =
  iapFilter :: bytes
  iapFrameNumber :: uint64
  InclusionCommitments :: "InclusionCommitment list"
  Proof :: bytes

record ClockFrame =
  Filter :: bytes
  FrameNumber :: uint64
  Timestamp :: int64
  Input :: bytes
  AggregateProofs :: "InclusionAggregateProof list"
  PublicKeySignatureEd448 :: "Ed448Signature option"

record IntrinsicExecutionOutput =
  Address :: bytes
  Output :: bytes
  eoProof :: bytes

text \<open>\<open>TokenRequests\<close> holds a list of requests; a request is opaque here.\<close>

type_synonym TokenRequests = "bytes list"

text \<open>
  A Go \<open>error\<close>, and \<open>errors.Wrap(err, tag)\<close>. A function returning
  \<open>(value, error)\<close> with the value nil on error is a sum, \<open>Inl\<close> the error. A
  run-time panic (nil pointer dereference, index or slice bound out of range) is the
  outcome \<open>Panic\<close>: it is not a returned error.
\<close>

datatype error = Error string | Wrap error string

datatype 'a outcome = Panic | Return 'a

record peerInfo =
  peerId :: bytes
  maxFrame :: uint64
  timestamp :: int64
  version :: bytes

datatype SyncStatusType = SyncStatusNotSyncing | SyncStatusSynchronizing

text \<open>
  What \<open>prove\<close> does to the outside, in order: taking and releasing
  \<open>stagedTransactionsMx\<close> and calling the stores, the application, the inclusion
  prover and the frame prover.
\<close>

datatype call =
  Lock | Unlock
  | Call_GetDataClockFrame | Call_MaterializeApplicationFromFrame | Call_ApplyTransitions
  | Call_MaterializeStateFromApplication
  | Call_CommitRaw | Call_ProveRaw | Call_ProveDataClockFrame

text \<open>
  The fields of \<open>DataClockConsensusEngine\<close> that the four functions use.
  \<open>peerMap\<close> is a Go map; it is kept as the list of its entries in the order a
  \<open>range\<close> loop visits them, looked up with \<open>map_of\<close>. \<open>stagedTransactions\<close> is a
  pointer that is nil until first use. \<open>stagedTransactionsMx\<close> is true while the mutex
  is held. \<open>frameProverTries\<close> is what \<open>GetFrameProverTries()\<close> returns.
  Two fields are not fields of the Go struct: \<open>dataTimeReel\<close> lists the arguments of
  every \<open>dataTimeReel.Insert\<close> call, oldest first, and \<open>trace\<close> lists the calls of
  \<open>prove\<close>, oldest first.
\<close>

record 'trie DataClockConsensusEngine =
  lastProven :: uint64
  stagedTransactions :: "TokenRequests option"
  stagedTransactionsMx :: bool
  filter_id :: bytes
  provingKey :: bytes
  provingKeyAddress :: bytes
  difficulty :: uint32
  latestFrameReceived :: uint64
  frameProverTries :: "'trie list"
  peerMap :: "(bytes \<times> peerInfo) list"
  uncooperativePeersMap :: "bytes \<rightharpoonup> peerInfo"
  syncingStatus :: SyncStatusType
  dataTimeReel :: "(ClockFrame \<times> bool) list"
  trace :: "call list"

section \<open>The proving pipeline: \<open>prove\<close>\<close>

text \<open>
  The collaborators of \<open>prove\<close> are not among the source files; they are parameters.
  Each is the function from the arguments \<open>prove\<close> passes to what the call returns
  (the stores, the pubsub and the logger that \<open>MaterializeApplicationFromFrame\<close> also
  receives are fixed during one call). \<open>GetDataClockFrame\<close> returns a frame, the tries
  and an error; \<open>prove\<close> discards the frame. \<open>ApplyTransitions\<close> returns the new
  application with the valid and the invalid requests, non-nil when the error is nil.
  \<open>digest_Write\<close> is the error of writing the data into a fresh SHAKE-256 state,
  \<open>digest_Read\<close> the bytes then read into the 1024-byte buffer, with the read's error.
  \<open>now\<close> is \<open>time.Now().UnixMilli()\<close>. \<open>TOKEN_ADDRESS\<close> and
  \<open>IntrinsicExecutionOutputType\<close> are constants of other packages.
\<close>

record ('app, 'tries, 'st) prove_deps =
  GetDataClockFrame :: "bytes \<Rightarrow> uint64 \<Rightarrow> bool \<Rightarrow> 'tries \<times> error option"
  MaterializeApplicationFromFrame :: "bytes \<Rightarrow> ClockFrame \<Rightarrow> 'tries \<Rightarrow> error + 'app"
  ApplyTransitions ::
    "'app \<Rightarrow> uint64 \<Rightarrow> TokenRequests \<Rightarrow> bool \<Rightarrow> error + ('app \<times> TokenRequests \<times> TokenRequests)"
  MaterializeStateFromApplication :: "'app \<Rightarrow> error + 'st"
  Marshal_state :: "'st \<Rightarrow> error + bytes"
  Marshal_requests :: "TokenRequests \<Rightarrow> error + bytes"
  Marshal_output :: "IntrinsicExecutionOutput \<Rightarrow> error + bytes"
  digest_Write :: "bytes \<Rightarrow> error option"
  digest_Read :: "bytes \<Rightarrow> bytes \<times> error option"
  CommitRaw :: "bytes \<Rightarrow> nat \<Rightarrow> error + bytes"
  ProveRaw :: "bytes \<Rightarrow> nat \<Rightarrow> nat \<Rightarrow> error + bytes"
  ProveDataClockFrame ::
    "ClockFrame \<Rightarrow> bytes list \<Rightarrow> InclusionAggregateProof list \<Rightarrow> bytes \<Rightarrow> int64 \<Rightarrow> uint32
      \<Rightarrow> error + ClockFrame"
  now :: int64
  TOKEN_ADDRESS :: bytes
  IntrinsicExecutionOutputType :: string

definition called :: "call \<Rightarrow> 'trie DataClockConsensusEngine \<Rightarrow> 'trie DataClockConsensusEngine" where
  "called c e = e\<lparr>trace := trace e @ [c]\<rparr>"

definition stagedTransactionsMx_Lock ::
  "'trie DataClockConsensusEngine \<Rightarrow> 'trie DataClockConsensusEngine" where
  "stagedTransactionsMx_Lock e = called Lock (e\<lparr>stagedTransactionsMx := True\<rparr>)"

definition stagedTransactionsMx_Unlock ::
  "'trie DataClockConsensusEngine \<Rightarrow> 'trie DataClockConsensusEngine" where
  "stagedTransactionsMx_Unlock e = called Unlock (e\<lparr>stagedTransactionsMx := False\<rparr>)"

text \<open>
  \<open>expand := make([]byte, 1024)\<close> followed by \<open>digest.Read(expand)\<close>: a buffer of 1024
  zero bytes, overwritten from the front by the bytes read.
\<close>

definition expand_of :: "bytes \<Rightarrow> bytes" where
  "expand_of bytes_read = take 1024 (bytes_read @ replicate 1024 0)"

text \<open>
  The second half of \<open>prove\<close>, lines 115 to 212: everything after the staging mutex has
  been released. The closing log statement evaluates \<open>frame.Input[516:]\<close>, which
  panics when the input is shorter than 516 bytes.
\<close>

definition prove_output ::
  "('app, 'tries, 'st) prove_deps \<Rightarrow> 'trie DataClockConsensusEngine \<Rightarrow> ClockFrame \<Rightarrow> 'app
    \<Rightarrow> TokenRequests \<Rightarrow> (error + ClockFrame) outcome \<times> 'trie DataClockConsensusEngine" where
  "prove_output d e0 previousFrame app validTransactions =
    (let e = called Call_MaterializeStateFromApplication e0 in
     case MaterializeStateFromApplication d app of
       Inl err \<Rightarrow> (Return (Inl (Wrap err ''prove'')), e)
     | Inr outputState \<Rightarrow>
    (case Marshal_state d outputState of
       Inl err \<Rightarrow> (Return (Inl (Wrap err ''prove'')), e)
     | Inr output_bytes \<Rightarrow>
    (case Marshal_requests d validTransactions of
       Inl err \<Rightarrow> (Return (Inl (Wrap err ''prove'')), e)
     | Inr proof_bytes \<Rightarrow>
    (case Marshal_output d
            \<lparr>Address = TOKEN_ADDRESS d, Output = output_bytes, eoProof = proof_bytes\<rparr> of
       Inl err \<Rightarrow> (Return (Inl (Wrap err ''prove'')), e)
     | Inr data \<Rightarrow>
    (case digest_Write d data of
       Some err \<Rightarrow> (Return (Inl (Wrap err ''prove'')), e)
     | None \<Rightarrow>
    (case digest_Read d data of
       (bytes_read, Some err) \<Rightarrow> (Return (Inl (Wrap err ''prove'')), e)
     | (bytes_read, None) \<Rightarrow>
    (let expand = expand_of bytes_read;
         e = called Call_CommitRaw e in
     case CommitRaw d expand 16 of
       Inl err \<Rightarrow> (Return (Inl (Wrap err ''prove'')), e)
     | Inr commitment \<Rightarrow>
    (let e = called Call_ProveRaw e in
     case ProveRaw d expand (unat (expand ! 0 mod 16)) 16 of
       Inl err \<Rightarrow> (Return (Inl (Wrap err ''prove'')), e)
     | Inr kzg_proof \<Rightarrow>
    (let e = called Call_ProveDataClockFrame e in
     case ProveDataClockFrame d previousFrame [kzg_proof]
            [\<lparr>iapFilter = filter_id e,
              iapFrameNumber = FrameNumber previousFrame + 1,
              InclusionCommitments =
                [\<lparr>icFilter = filter_id e,
                  icFrameNumber = FrameNumber previousFrame + 1,
                  TypeUrl = IntrinsicExecutionOutputType d,
                  Commitment = commitment,
                  Data = data,
                  Position = 0\<rparr>],
              Proof = kzg_proof\<rparr>]
            (provingKey e) (now d) (difficulty e) of
       Inl err \<Rightarrow> (Return (Inl (Wrap err ''prove'')), e)
     | Inr frame \<Rightarrow>
    (let e = e\<lparr>lastProven := FrameNumber previousFrame\<rparr> in
     if length (Input frame) < 516 then (Panic, e)
     else (Return (Inr frame), e)))))))))))"

text \<open>
  \<open>prove\<close>, lines 58 to 113, continued by \<open>prove_output\<close>. The error that
  \<open>GetDataClockFrame\<close> returns is bound to \<open>err\<close> and overwritten by the next
  assignment before any test reads it.
\<close>

definition prove ::
  "('app, 'tries, 'st) prove_deps \<Rightarrow> 'trie DataClockConsensusEngine \<Rightarrow> ClockFrame
    \<Rightarrow> (error + ClockFrame) outcome \<times> 'trie DataClockConsensusEngine" where
  "prove d e0 previousFrame =
    (if lastProven e0 \<ge> FrameNumber previousFrame \<and> lastProven e0 \<noteq> 0
     then (Return (Inr previousFrame), e0)
     else
       let e = stagedTransactionsMx_Lock e0;
           e = called Call_GetDataClockFrame e;
           (tries, err) = GetDataClockFrame d (filter_id e) (FrameNumber previousFrame) False;
           e = called Call_MaterializeApplicationFromFrame e
       in case MaterializeApplicationFromFrame d (provingKey e) previousFrame tries of
            Inl err \<Rightarrow> (Return (Inl (Wrap err ''prove'')), stagedTransactionsMx_Unlock e)
          | Inr app \<Rightarrow>
             (let e = (case stagedTransactions e of
                         None \<Rightarrow> e\<lparr>stagedTransactions := Some []\<rparr>
                       | Some requests \<Rightarrow> e);
                  staged = (case stagedTransactions e of None \<Rightarrow> [] | Some requests \<Rightarrow> requests);
                  e = called Call_ApplyTransitions e
              in case ApplyTransitions d app (FrameNumber previousFrame + 1) staged True of
                   Inl err \<Rightarrow>
                     (Return (Inl (Wrap err ''prove'')),
                      stagedTransactionsMx_Unlock (e\<lparr>stagedTransactions := Some []\<rparr>))
                 | Inr (app, validTransactions, invalidTransactions) \<Rightarrow>
                     prove_output d
                       (stagedTransactionsMx_Unlock (e\<lparr>stagedTransactions := Some []\<rparr>))
                       previousFrame app validTransactions))"

text \<open>The test that opens \<open>prove\<close>, named for the lemmas about it.\<close>

definition short_circuit :: "'trie DataClockConsensusEngine \<Rightarrow> ClockFrame \<Rightarrow> bool" where
  "short_circuit e previousFrame = (lastProven e \<ge> FrameNumber previousFrame \<and> lastProven e \<noteq> 0)"

section \<open>The peer registry: \<open>GetAheadPeers\<close>\<close>

text \<open>
  Go's \<open>float64\<close> is IEEE 754 binary64: 53 significant bits, results rounded to the
  nearest representable number, ties to the one with an even significand. The values
  that \<open>GetAheadPeers\<close> computes are not negative, so a \<open>float64\<close> is a real number
  that is not negative, \<open>+Inf\<close> or \<open>NaN\<close>.
\<close>

datatype float64 = Finite real | PosInf | NaN

text \<open>The integer nearest to \<open>n / d\<close>, a tie going to the even one.\<close>

definition round_half_even :: "nat \<Rightarrow> nat \<Rightarrow> nat" where
  "round_half_even n d =
     (let q = n div d; r = n mod d
      in if 2 * r < d then q else if d < 2 * r then q + 1 else if even q then q else q + 1)"

text \<open>
  The conversion \<open>float64(x)\<close> of a \<open>uint64\<close>: \<open>floorlog 2 n\<close> is the number of bits
  of \<open>n\<close>; a number of more than 53 bits is rounded to a multiple of the power of two
  that leaves 53 of them. The result is a natural number, at most \<open>2^64\<close>.
\<close>

definition float64_of_uint64 :: "uint64 \<Rightarrow> nat" where
  "float64_of_uint64 x =
     (let n = unat x; sh = floorlog 2 n - 53
      in round_half_even n (2 ^ sh) * 2 ^ sh)"

text \<open>
  The quotient \<open>a / b\<close> of two such numbers in \<open>float64\<close>. Division by zero gives
  \<open>NaN\<close> for \<open>0 / 0\<close> and \<open>+Inf\<close> otherwise. Else \<open>e\<close> is the binary exponent of the
  exact quotient, \<open>2^e \<le> a / b < 2^(e + 1)\<close>, and the quotient is rounded to the
  nearest multiple of \<open>2^(e - 52)\<close>. With \<open>a\<close> and \<open>b\<close> between 1 and \<open>2^64\<close> the
  exponent is between -64 and 64: the quotient neither overflows nor is subnormal.
\<close>

definition float64_quo :: "nat \<Rightarrow> nat \<Rightarrow> float64" where
  "float64_quo a b =
     (if b = 0 then (if a = 0 then NaN else PosInf)
      else if a = 0 then Finite 0
      else
        let k = int (floorlog 2 a) - int (floorlog 2 b);
            e = (if b * 2 ^ nat k \<le> a * 2 ^ nat (- k) then k else k - 1);
            s = 52 - e;
            m = round_half_even (a * 2 ^ nat s) (b * 2 ^ nat (- s))
        in Finite (real m * 2 ^ nat (- s) / 2 ^ nat s))"

text \<open>
  \<open>internal.PeerCandidate\<close>, and \<open>internal.WeightedPeerCandidate\<close>, which embeds it
  and adds the weight.
\<close>

record PeerCandidate =
  PeerID :: bytes
  MaxFrame :: uint64

record WeightedPeerCandidate = PeerCandidate +
  Weight :: float64

text \<open>
  What \<open>GetAheadPeers\<close> takes from outside the source files, as parameters:
  \<open>trie_Contains\<close> is the prover trie's \<open>Contains\<close>; \<open>MinimumVersionCutoff\<close> is
  \<open>config.GetMinimumVersionCutoff().UnixMilli()\<close> and \<open>MinimumVersion\<close> is
  \<open>config.GetMinimumVersion()\<close>;
  \<open>WeightedSampleWithoutReplacement\<close> is the sampler of package \<open>internal\<close>, one draw
  of its random numbers being fixed.
\<close>

record 'trie registry_deps =
  trie_Contains :: "'trie \<Rightarrow> bytes \<Rightarrow> bool"
  MinimumVersionCutoff :: int64
  MinimumVersion :: bytes
  WeightedSampleWithoutReplacement :: "WeightedPeerCandidate list \<Rightarrow> nat \<Rightarrow> PeerCandidate list"

text \<open>Go's \<open>bytes.Compare\<close>: lexicographic on unsigned bytes, giving -1, 0 or 1.\<close>

fun bytes_Compare :: "bytes \<Rightarrow> bytes \<Rightarrow> int" where
  "bytes_Compare [] [] = 0"
| "bytes_Compare [] (y # ys) = - 1"
| "bytes_Compare (x # xs) [] = 1"
| "bytes_Compare (x # xs) (y # ys) =
     (if x < y then - 1 else if y < x then 1 else bytes_Compare xs ys)"

text \<open>
  The loop over \<open>range e.peerMap\<close>, lines 231 to 258: the candidates collected so far
  and the running \<open>maxDiff\<close>. The timestamps are \<open>int64\<close> and compared signed.
\<close>

fun ahead_loop ::
  "'trie registry_deps \<Rightarrow> 'trie DataClockConsensusEngine \<Rightarrow> uint64 \<Rightarrow> peerInfo list
    \<Rightarrow> PeerCandidate list \<times> uint64 \<Rightarrow> PeerCandidate list \<times> uint64" where
  "ahead_loop r e frameNumber [] (candidates, maxDiff) = (candidates, maxDiff)"
| "ahead_loop r e frameNumber (v # vs) (candidates, maxDiff) =
     (if maxFrame v \<le> frameNumber then ahead_loop r e frameNumber vs (candidates, maxDiff)
      else if uncooperativePeersMap e (peerId v) \<noteq> None
        then ahead_loop r e frameNumber vs (candidates, maxDiff)
      else if sint (timestamp v) \<le> sint (MinimumVersionCutoff r)
        then ahead_loop r e frameNumber vs (candidates, maxDiff)
      else if bytes_Compare (version v) (MinimumVersion r) < 0
        then ahead_loop r e frameNumber vs (candidates, maxDiff)
      else ahead_loop r e frameNumber vs
             (candidates @ [\<lparr>PeerID = peerId v, MaxFrame = maxFrame v\<rparr>],
              max maxDiff (maxFrame v - frameNumber)))"

text \<open>
  The second loop, lines 265 to 267: each candidate gets the weight
  \<open>float64(MaxFrame - frameNumber) / float64(maxDiff)\<close>.
\<close>

definition with_weight :: "uint64 \<Rightarrow> uint64 \<Rightarrow> PeerCandidate \<Rightarrow> WeightedPeerCandidate" where
  "with_weight frameNumber maxDiff c =
     PeerCandidate.extend c
       (WeightedPeerCandidate.fields
          (float64_quo (float64_of_uint64 (MaxFrame c - frameNumber)) (float64_of_uint64 maxDiff)))"

text \<open>
  \<open>GetAheadPeers\<close>. Indexing \<open>GetFrameProverTries()[0]\<close> panics when there is no
  trie. A nil slice is the empty list.
\<close>

definition GetAheadPeers ::
  "'trie registry_deps \<Rightarrow> 'trie DataClockConsensusEngine \<Rightarrow> uint64
    \<Rightarrow> PeerCandidate list outcome" where
  "GetAheadPeers r e frameNumber =
     (case frameProverTries e of
        [] \<Rightarrow> Panic
      | trie0 # _ \<Rightarrow>
          if trie_Contains r trie0 (provingKeyAddress e) then Return []
          else
            (case ahead_loop r e frameNumber (map snd (peerMap e)) ([], 0) of
               (candidates, maxDiff) \<Rightarrow>
                 if length candidates = 0 then Return []
                 else Return (WeightedSampleWithoutReplacement r
                        (map (with_weight frameNumber maxDiff) candidates)
                        (length candidates))))"

text \<open>The candidate that the loop appends for a peer.\<close>

definition candidate_of :: "peerInfo \<Rightarrow> PeerCandidate" where
  "candidate_of v = \<lparr>PeerID = peerId v, MaxFrame = maxFrame v\<rparr>"

text \<open>
  The claim's words for one entry of the peer map: a cooperative peer (not in the
  uncooperative map, newer than the version cutoff, at least the minimum version)
  whose \<open>max_frame\<close> is strictly greater than the head.
\<close>

definition cooperative_ahead ::
  "'trie registry_deps \<Rightarrow> 'trie DataClockConsensusEngine \<Rightarrow> uint64 \<Rightarrow> peerInfo \<Rightarrow> bool" where
  "cooperative_ahead r e head v =
     (head < maxFrame v \<and> uncooperativePeersMap e (peerId v) = None
      \<and> sint (MinimumVersionCutoff r) < sint (timestamp v)
      \<and> 0 \<le> bytes_Compare (version v) (MinimumVersion r))"

definition ahead_peers ::
  "'trie registry_deps \<Rightarrow> 'trie DataClockConsensusEngine \<Rightarrow> uint64 \<Rightarrow> PeerCandidate list" where
  "ahead_peers r e head =
     map (\<lambda>v. \<lparr>PeerID = peerId v, MaxFrame = maxFrame v\<rparr>)
       (filter (cooperative_ahead r e head) (map snd (peerMap e)))"

section \<open>The sync engine: \<open>sync\<close> and \<open>collect\<close>\<close>

text \<open>
  The response of the \<open>GetDataFrame\<close> RPC: a message whose clock frame may be nil.
\<close>

record GetDataFrameResponse =
  respClockFrame :: "ClockFrame option"

text \<open>
  What \<open>sync\<close> takes from outside the source files, as parameters: the engine's
  \<open>IsInProverTrie\<close>, the frame prover's \<open>VerifyDataClockFrame\<close> (nil error is
  \<open>None\<close>), and \<open>time.Now().UnixMilli()\<close> at the deferred demotion.
\<close>

record sync_deps =
  IsInProverTrie :: "bytes \<Rightarrow> bool"
  VerifyDataClockFrame :: "ClockFrame \<Rightarrow> error option"
  time_Now :: int64

text \<open>
  What the peer and the engine's life cycle do during one call of \<open>sync\<close>:
  \<open>GetDirectChannel\<close> is the error of opening the channel (\<open>None\<close>: the channel is
  open), and \<open>GetDataFrame\<close> lists what the RPC returns at each iteration that the loop
  enters, \<open>Inl\<close> a transport error, \<open>Inr None\<close> a nil response. The loop is entered
  while \<open>GetState() < EngineStateStopping\<close>; when the list is used up the engine is
  stopping and the loop condition fails. The error of \<open>cc.Close()\<close> is only logged.
\<close>

record sync_session =
  GetDirectChannel :: "error option"
  GetDataFrame :: "(error + GetDataFrameResponse option) list"

text \<open>
  \<open>frame.GetPublicKeySignatureEd448().PublicKey.KeyValue\<close>: the getter is nil-safe,
  the two field reads after it are not; \<open>None\<close> is the nil pointer dereference.
\<close>

definition producer_key :: "ClockFrame \<Rightarrow> bytes option" where
  "producer_key frame =
     (case PublicKeySignatureEd448 frame of
        None \<Rightarrow> None
      | Some signature \<Rightarrow>
          (case PublicKey signature of None \<Rightarrow> None | Some key \<Rightarrow> Some (KeyValue key)))"

definition dataTimeReel_Insert ::
  "ClockFrame \<Rightarrow> bool \<Rightarrow> 'trie DataClockConsensusEngine \<Rightarrow> 'trie DataClockConsensusEngine" where
  "dataTimeReel_Insert frame trusted e = e\<lparr>dataTimeReel := dataTimeReel e @ [(frame, trusted)]\<rparr>"

text \<open>
  The pull loop of \<open>sync\<close>, lines 320 to 372, over the RPC outcomes of the session. It
  gives what \<open>sync\<close> returns (the frame pointer and the error), the engine and the
  flag \<open>cooperative\<close> as the deferred functions find them.
\<close>

fun sync_loop ::
  "sync_deps \<Rightarrow> 'trie DataClockConsensusEngine \<Rightarrow> bool \<Rightarrow> ClockFrame \<Rightarrow> uint64
    \<Rightarrow> (error + GetDataFrameResponse option) list
    \<Rightarrow> (ClockFrame option \<times> error option) outcome \<times> 'trie DataClockConsensusEngine \<times> bool" where
  "sync_loop d e cooperative latest max_frame [] = (Return (Some latest, None), e, cooperative)"
| "sync_loop d e cooperative latest max_frame (rpc # rpcs) =
     (case rpc of
        Inl err \<Rightarrow> (Return (Some latest, Some (Wrap err ''sync'')), e, False)
      | Inr None \<Rightarrow> (Return (Some latest, None), e, cooperative)
      | Inr (Some response) \<Rightarrow>
          (case respClockFrame response of
             None \<Rightarrow> (Return (Some latest, None), e, False)
           | Some frame \<Rightarrow>
               if FrameNumber frame \<noteq> FrameNumber latest + 1
                  \<or> sint (Timestamp frame) < sint (Timestamp latest)
               then (Return (Some latest, None), e, False)
               else
                 (case producer_key frame of
                    None \<Rightarrow> (Panic, e, cooperative)
                  | Some key \<Rightarrow>
                      (let cooperative = (if \<not> IsInProverTrie d key then False else cooperative)
                       in case VerifyDataClockFrame d frame of
                            Some err \<Rightarrow> (Return (None, Some (Wrap err ''sync'')), e, cooperative)
                          | None \<Rightarrow>
                              (let e = dataTimeReel_Insert frame True e;
                                   latest = frame
                               in if FrameNumber latest \<ge> max_frame
                                  then (Return (Some latest, None), e, cooperative)
                                  else sync_loop d e cooperative latest max_frame rpcs)))))"

text \<open>
  The deferred functions of \<open>sync\<close>, which run on every exit, a panic included, in
  reverse order of their \<open>defer\<close> statements: the demotion of lines 286 to 297, then
  the reset of \<open>syncingStatus\<close>. \<open>delete\<close> removes the key from the peer map.
\<close>

definition mark_uncooperative ::
  "sync_deps \<Rightarrow> bytes \<Rightarrow> bool \<Rightarrow> 'trie DataClockConsensusEngine \<Rightarrow> 'trie DataClockConsensusEngine" where
  "mark_uncooperative d peer cooperative e =
     (if cooperative then e
      else
        (case map_of (peerMap e) peer of
           None \<Rightarrow> e
         | Some info \<Rightarrow>
             e\<lparr>uncooperativePeersMap :=
                 (uncooperativePeersMap e)(peer \<mapsto> info\<lparr>timestamp := time_Now d\<rparr>),
               peerMap := filter (\<lambda>entry. fst entry \<noteq> peer) (peerMap e)\<rparr>))"

definition sync_deferred ::
  "sync_deps \<Rightarrow> bytes \<Rightarrow> bool \<Rightarrow> 'trie DataClockConsensusEngine \<Rightarrow> 'trie DataClockConsensusEngine" where
  "sync_deferred d peer cooperative e =
     (mark_uncooperative d peer cooperative e)\<lparr>syncingStatus := SyncStatusNotSyncing\<rparr>"

text \<open>\<open>sync\<close>, lines 271 to 373, its parameter \<open>maxFrame\<close> written \<open>max_frame\<close>.
  \<open>currentLatest\<close> is not nil: the first log reads it.\<close>

definition sync ::
  "sync_deps \<Rightarrow> 'trie DataClockConsensusEngine \<Rightarrow> ClockFrame \<Rightarrow> uint64 \<Rightarrow> bytes \<Rightarrow> sync_session
    \<Rightarrow> (ClockFrame option \<times> error option) outcome \<times> 'trie DataClockConsensusEngine" where
  "sync d e0 currentLatest max_frame peer session =
     (let e = e0\<lparr>syncingStatus := SyncStatusSynchronizing\<rparr>
      in case GetDirectChannel session of
           Some err \<Rightarrow>
             (Return (Some currentLatest, Some (Wrap err ''sync'')), sync_deferred d peer False e)
         | None \<Rightarrow>
             (case sync_loop d e True currentLatest max_frame (GetDataFrame session) of
                (result, e, cooperative) \<Rightarrow> (result, sync_deferred d peer cooperative e)))"

text \<open>
  The inner loop of \<open>collect\<close>, lines 36 to 46, over the candidates of one pass. Each
  call of \<open>sync\<close> takes the next session of the list; \<open>None\<close> means the list does not
  say what the next peer does. \<open>latest\<close> is the pointer that \<open>sync\<close> returned, which
  is nil after a verification failure; reading \<open>latest.FrameNumber\<close> of a nil pointer
  panics. After an error the loop logs it and goes on, as it does after a success.
\<close>

fun collect_candidates ::
  "sync_deps \<Rightarrow> 'trie DataClockConsensusEngine \<Rightarrow> ClockFrame option \<Rightarrow> PeerCandidate list
    \<Rightarrow> sync_session list
    \<Rightarrow> (ClockFrame option outcome \<times> 'trie DataClockConsensusEngine \<times> sync_session list) option" where
  "collect_candidates d e latest [] sessions = Some (Return latest, e, sessions)"
| "collect_candidates d e latest (candidate # candidates) sessions =
     (case latest of
        None \<Rightarrow> Some (Panic, e, sessions)
      | Some latest_frame \<Rightarrow>
          if MaxFrame candidate \<le> max (FrameNumber latest_frame) (latestFrameReceived e)
          then collect_candidates d e latest candidates sessions
          else
            (case sessions of
               [] \<Rightarrow> None
             | session # sessions \<Rightarrow>
                 (case sync d e latest_frame (MaxFrame candidate) (PeerID candidate) session of
                    (Panic, e) \<Rightarrow> Some (Panic, e, sessions)
                  | (Return (latest, err), e) \<Rightarrow>
                      collect_candidates d e latest candidates sessions)))"

text \<open>
  The outer loop of \<open>collect\<close>, lines 31 to 47, and the return. The loop has no bound
  of its own (a peer that stays ahead and answers nil keeps it running), so it runs on
  fuel, one unit per pass: \<open>None\<close> means the fuel or the sessions ran out before
  \<open>collect\<close> returned or panicked.
\<close>

fun collect_loop ::
  "nat \<Rightarrow> 'trie registry_deps \<Rightarrow> sync_deps \<Rightarrow> 'trie DataClockConsensusEngine
    \<Rightarrow> ClockFrame option \<Rightarrow> sync_session list
    \<Rightarrow> ((ClockFrame \<times> error option) outcome \<times> 'trie DataClockConsensusEngine) option" where
  "collect_loop 0 r d e latest sessions = None"
| "collect_loop (Suc fuel) r d e latest sessions =
     (case latest of
        None \<Rightarrow> Some (Panic, e)
      | Some latest_frame \<Rightarrow>
          (case GetAheadPeers r e (max (FrameNumber latest_frame) (latestFrameReceived e)) of
             Panic \<Rightarrow> Some (Panic, e)
           | Return candidates \<Rightarrow>
               if length candidates = 0 then Some (Return (latest_frame, None), e)
               else
                 (case collect_candidates d e latest candidates sessions of
                    None \<Rightarrow> None
                  | Some (Panic, e, sessions) \<Rightarrow> Some (Panic, e)
                  | Some (Return latest, e, sessions) \<Rightarrow>
                      collect_loop fuel r d e latest sessions)))"

definition collect ::
  "nat \<Rightarrow> 'trie registry_deps \<Rightarrow> sync_deps \<Rightarrow> 'trie DataClockConsensusEngine
    \<Rightarrow> ClockFrame \<Rightarrow> sync_session list
    \<Rightarrow> ((ClockFrame \<times> error option) outcome \<times> 'trie DataClockConsensusEngine) option" where
  "collect fuel r d e enqueuedFrame sessions = collect_loop fuel r d e (Some enqueuedFrame) sessions"

text \<open>
  The claim's words for the frames that one session pulls: the response frames that
  answer the request (the next frame number, a timestamp not before the latest one's)
  and carry a producer key, up to the first that fails verification or reaches
  \<open>max_frame\<close>.
\<close>

fun pulled_frames ::
  "sync_deps \<Rightarrow> ClockFrame \<Rightarrow> uint64 \<Rightarrow> (error + GetDataFrameResponse option) list \<Rightarrow> ClockFrame list" where
  "pulled_frames d latest max_frame [] = []"
| "pulled_frames d latest max_frame (rpc # rpcs) =
     (case rpc of
        Inl err \<Rightarrow> []
      | Inr None \<Rightarrow> []
      | Inr (Some response) \<Rightarrow>
          (case respClockFrame response of
             None \<Rightarrow> []
           | Some frame \<Rightarrow>
               if FrameNumber frame = FrameNumber latest + 1
                  \<and> sint (Timestamp latest) \<le> sint (Timestamp frame)
                  \<and> producer_key frame \<noteq> None
               then frame #
                 (if VerifyDataClockFrame d frame = None \<and> FrameNumber frame < max_frame
                  then pulled_frames d frame max_frame rpcs else [])
               else []))"

text \<open>
  The claim's words for the frames handed to the time reel after \<open>prev\<close>: each has
  the frame number of its predecessor plus one (in \<open>uint64\<close>) and a timestamp not
  before its predecessor's.
\<close>

fun consecutive :: "ClockFrame \<Rightarrow> ClockFrame list \<Rightarrow> bool" where
  "consecutive prev [] = True"
| "consecutive prev (frame # frames) =
     (FrameNumber frame = FrameNumber prev + 1
      \<and> sint (Timestamp prev) \<le> sint (Timestamp frame)
      \<and> consecutive frame frames)"

section \<open>Example inputs\<close>

text \<open>
  Concrete collaborators, frames and an engine on which the theorems below are
  evaluated. In \<open>example_deps\<close> the clock store fails to load the tries and every
  other call succeeds; the frame prover returns the successor frame with a 516-byte
  input.
\<close>

definition example_frame :: "uint64 \<Rightarrow> int64 \<Rightarrow> ClockFrame" where
  "example_frame n t =
     \<lparr>Filter = [], FrameNumber = n, Timestamp = t, Input = replicate 516 0,
      AggregateProofs = [],
      PublicKeySignatureEd448 = Some \<lparr>Signature = [], PublicKey = Some \<lparr>KeyValue = [1]\<rparr>\<rparr>\<rparr>"

definition example_deps :: "(unit, unit, unit) prove_deps" where
  "example_deps =
     \<lparr>GetDataClockFrame = (\<lambda>f n b. ((), Some (Error ''load''))),
      MaterializeApplicationFromFrame = (\<lambda>k f t. Inr ()),
      ApplyTransitions = (\<lambda>a n rs c. Inr ((), rs, [])),
      MaterializeStateFromApplication = (\<lambda>a. Inr ()),
      Marshal_state = (\<lambda>s. Inr []),
      Marshal_requests = (\<lambda>rs. Inr (concat rs)),
      Marshal_output = (\<lambda>out. Inr (Output out @ eoProof out)),
      digest_Write = (\<lambda>data. None),
      digest_Read = (\<lambda>data. (data, None)),
      CommitRaw = (\<lambda>data n. Inr [2]),
      ProveRaw = (\<lambda>data p n. Inr [3]),
      ProveDataClockFrame = (\<lambda>prev ws ps k t dif. Inr (example_frame (FrameNumber prev + 1) t)),
      now = 1000,
      TOKEN_ADDRESS = [],
      IntrinsicExecutionOutputType = ''''\<rparr>"

definition example_engine :: "unit DataClockConsensusEngine" where
  "example_engine =
     \<lparr>lastProven = 0, stagedTransactions = None, stagedTransactionsMx = False,
      filter_id = [], provingKey = [], provingKeyAddress = [9], difficulty = 0,
      latestFrameReceived = 0, frameProverTries = [],
      peerMap = [], uncooperativePeersMap = Map.empty,
      syncingStatus = SyncStatusNotSyncing, dataTimeReel = [], trace = []\<rparr>"



text \<open>
  A registry whose sampler returns all candidates in reverse order, and a follower (its address [9] is not in the trie)
  that knows six peers: [1] and [2] are cooperative and ahead of frame 5, [3] is in the
  uncooperative map, [4] is not ahead, [5] runs an old version and [6] was heard at
  the version cutoff.
\<close>

definition example_registry :: "bytes list registry_deps" where
  "example_registry =
     \<lparr>trie_Contains = (\<lambda>trie address. address \<in> set trie),
      MinimumVersionCutoff = 100,
      MinimumVersion = [2, 0, 3],
      WeightedSampleWithoutReplacement = (\<lambda>ws n. take n (rev (map PeerCandidate.truncate ws)))\<rparr>"

definition example_peer :: "bytes \<Rightarrow> uint64 \<Rightarrow> int64 \<Rightarrow> bytes \<Rightarrow> bytes \<times> peerInfo" where
  "example_peer p m t v = (p, \<lparr>peerId = p, maxFrame = m, timestamp = t, version = v\<rparr>)"

definition example_follower :: "bytes list DataClockConsensusEngine" where
  "example_follower =
     \<lparr>lastProven = 0, stagedTransactions = None, stagedTransactionsMx = False,
      filter_id = [], provingKey = [], provingKeyAddress = [9], difficulty = 0,
      latestFrameReceived = 0, frameProverTries = [[[7]]],
      peerMap = [example_peer [1] 8 200 [2, 0, 3], example_peer [2] 12 200 [2, 1],
                 example_peer [3] 20 200 [2, 0, 3], example_peer [4] 5 200 [2, 0, 3],
                 example_peer [5] 30 200 [1, 9, 9], example_peer [6] 30 100 [2, 0, 3]],
      uncooperativePeersMap =
        [[3] \<mapsto> \<lparr>peerId = [3], maxFrame = 20, timestamp = 150, version = [2, 0, 3]\<rparr>],
      syncingStatus = SyncStatusNotSyncing, dataTimeReel = [], trace = []\<rparr>"

text \<open>
  For \<open>sync\<close>: the prover trie holds the key [1] only, and a frame verifies unless
  its input is empty. \<open>example_frame\<close> is signed with the key [1], \<open>foreign_frame\<close>
  with the key [2]. A peer answers with the frames of its session, in order.
\<close>

definition example_sync_deps :: sync_deps where
  "example_sync_deps =
     \<lparr>IsInProverTrie = (\<lambda>key. key = [1]),
      VerifyDataClockFrame = (\<lambda>frame. if Input frame = [] then Some (Error ''vdf'') else None),
      time_Now = 999\<rparr>"

definition reply :: "ClockFrame \<Rightarrow> error + GetDataFrameResponse option" where
  "reply frame = Inr (Some \<lparr>respClockFrame = Some frame\<rparr>)"

definition foreign_frame :: "uint64 \<Rightarrow> int64 \<Rightarrow> ClockFrame" where
  "foreign_frame n t =
     (example_frame n t)
       \<lparr>PublicKeySignatureEd448 := Some \<lparr>Signature = [], PublicKey = Some \<lparr>KeyValue = [2]\<rparr>\<rparr>\<rparr>"

definition unverifiable_frame :: "uint64 \<Rightarrow> int64 \<Rightarrow> ClockFrame" where
  "unverifiable_frame n t = (example_frame n t)\<lparr>Input := []\<rparr>"

definition example_session :: sync_session where
  "example_session =
     \<lparr>GetDirectChannel = None,
      GetDataFrame = [reply (example_frame 6 10), reply (example_frame 7 11),
                      reply (example_frame 8 11), reply (example_frame 9 12)]\<rparr>"

definition foreign_session :: sync_session where
  "foreign_session =
     \<lparr>GetDirectChannel = None,
      GetDataFrame = [reply (foreign_frame 6 10), reply (example_frame 7 11)]\<rparr>"

definition unverifiable_session :: sync_session where
  "unverifiable_session =
     \<lparr>GetDirectChannel = None, GetDataFrame = [reply (unverifiable_frame 6 10)]\<rparr>"

section \<open>Properties of the peer scores\<close>

text \<open>
  Claim C10. The score operations are total (they return a value or a new state, with no
  error or panic branch) and behave as \<open>int64\<close> counters with absent entries read as
  zero: a peer with no entry reads 0, in particular every peer of a freshly built
  \<open>BlossomSub\<close>; a read after \<open>SetPeerScore(peer, s)\<close> gives \<open>s\<close>; and after
  \<open>AddPeerScore(peer, d)\<close> the score is the previous score plus \<open>d\<close> in Go's \<open>int64\<close>
  addition, the previous score being 0 when the peer had no entry.
\<close>

theorem peer_score_counter:
  "GetPeerScore NewBlossomSub p = 0
   \<and> (peerScore b p = None \<longrightarrow> GetPeerScore b p = 0)
   \<and> GetPeerScore (SetPeerScore b p s) p = s
   \<and> GetPeerScore (AddPeerScore b p d) p = GetPeerScore b p + d
   \<and> (peerScore b p = None \<longrightarrow> GetPeerScore (AddPeerScore b p d) p = d)"
  by (simp add: NewBlossomSub_def GetPeerScore_def SetPeerScore_def AddPeerScore_def
      split: option.splits)

theorem peer_score_counter_witness:
  "peerScore (SetPeerScore NewBlossomSub [1] 5) [2] = None
   \<and> GetPeerScore (SetPeerScore NewBlossomSub [1] 5) [2] = 0
   \<and> GetPeerScore (SetPeerScore (SetPeerScore NewBlossomSub [1] 5) [2] 9) [2] = 9
   \<and> GetPeerScore (AddPeerScore (SetPeerScore NewBlossomSub [1] 5) [2] 7) [2] = 7"
proof -
  let ?b = "SetPeerScore NewBlossomSub [1] 5"
  have h: "peerScore ?b [2] = None"
    by (simp add: SetPeerScore_def NewBlossomSub_def)
  from h peer_score_counter [of "[2]" ?b 9 7] show ?thesis
    by simp
qed

section \<open>Properties of \<open>prove\<close>\<close>

lemma prove_output_deps:
  "prove_output (d\<lparr>GetDataClockFrame := g\<rparr>) e prev app valid = prove_output d e prev app valid"
  by (simp add: prove_output_def cong: sum.case_cong option.case_cong prod.case_cong)

lemma prove_output_trace:
  "\<exists>rest. trace (snd (prove_output d e prev app valid)) = trace e @ rest
      \<and> set rest \<subseteq> {Call_MaterializeStateFromApplication, Call_CommitRaw, Call_ProveRaw,
                      Call_ProveDataClockFrame}"
  by (auto simp: prove_output_def called_def Let_def split: sum.splits option.splits prod.splits)

lemma prove_output_staged:
  "stagedTransactions (snd (prove_output d e prev app valid)) = stagedTransactions e
   \<and> stagedTransactionsMx (snd (prove_output d e prev app valid)) = stagedTransactionsMx e"
  by (auto simp: prove_output_def called_def Let_def split: sum.splits option.splits prod.splits)

lemma prove_output_lastProven_err:
  "prove_output d e prev app valid = (Return (Inl err), e') \<Longrightarrow> lastProven e' = lastProven e"
  by (auto simp: prove_output_def called_def Let_def
      split: sum.splits option.splits prod.splits if_splits)

lemma prove_output_lastProven_ok:
  "prove_output d e prev app valid = (Return (Inr f), e') \<Longrightarrow> lastProven e' = FrameNumber prev"
  by (auto simp: prove_output_def called_def Let_def
      split: sum.splits option.splits prod.splits if_splits)

lemmas prove_unfold =
  prove_def called_def stagedTransactionsMx_Lock_def stagedTransactionsMx_Unlock_def

lemma prove_lastProven_ok:
  assumes "prove d e prev = (Return (Inr f), e')"
  shows "short_circuit e prev \<or> lastProven e' = FrameNumber prev"
  using assms
  by (auto simp: prove_unfold short_circuit_def Let_def
      split: sum.splits option.splits prod.splits if_splits dest!: prove_output_lastProven_ok)

text \<open>
  Claim C5, as amended. When \<open>lastProven \<ge> prev.frame_number\<close> and
  \<open>lastProven \<noteq> 0\<close>, \<open>prove(prev)\<close> returns \<open>prev\<close> and leaves the whole engine
  state as it was. Hence after a \<open>prove(prev)\<close> that returned a frame, a second
  \<open>prove(prev)\<close> returns \<open>prev\<close> itself and changes nothing, whatever the
  collaborators would answer, provided \<open>prev.frame_number\<close> is not 0.
\<close>

theorem prove_short_circuit:
  "(lastProven e \<ge> FrameNumber prev \<and> lastProven e \<noteq> 0
      \<longrightarrow> prove d e prev = (Return (Inr prev), e))
   \<and> (prove d e prev = (Return (Inr f), e1) \<and> FrameNumber prev \<noteq> 0
      \<longrightarrow> prove d' e1 prev = (Return (Inr prev), e1))"
proof (intro conjI impI)
  assume "lastProven e \<ge> FrameNumber prev \<and> lastProven e \<noteq> 0"
  then show "prove d e prev = (Return (Inr prev), e)"
    by (simp add: prove_def)
next
  assume a: "prove d e prev = (Return (Inr f), e1) \<and> FrameNumber prev \<noteq> 0"
  then consider "short_circuit e prev" | "lastProven e1 = FrameNumber prev"
    using prove_lastProven_ok by blast
  then have "short_circuit e1 prev"
  proof cases
    case 1
    with a have "e1 = e" by (simp add: prove_def short_circuit_def)
    with 1 show ?thesis by simp
  next
    case 2
    with a show ?thesis by (simp add: short_circuit_def)
  qed
  then show "prove d' e1 prev = (Return (Inr prev), e1)"
    by (simp add: prove_def short_circuit_def)
qed

lemmas example_unfold =
  prove_unfold prove_output_def example_deps_def example_engine_def example_frame_def expand_of_def

theorem prove_short_circuit_witness:
  "FrameNumber (example_frame 4 5) \<le> lastProven (example_engine\<lparr>lastProven := 7\<rparr>)
   \<and> prove example_deps (example_engine\<lparr>lastProven := 7\<rparr>) (example_frame 4 5)
      = (Return (Inr (example_frame 4 5)), example_engine\<lparr>lastProven := 7\<rparr>)
   \<and> fst (prove example_deps example_engine (example_frame 4 5)) = Return (Inr (example_frame 5 1000))
   \<and> prove example_deps (snd (prove example_deps example_engine (example_frame 4 5)))
        (example_frame 4 5)
      = (Return (Inr (example_frame 4 5)), snd (prove example_deps example_engine (example_frame 4 5)))"
proof -
  let ?prev = "example_frame 4 5"
  let ?e7 = "example_engine\<lparr>lastProven := 7\<rparr>"
  let ?e1 = "snd (prove example_deps example_engine ?prev)"
  have h1: "FrameNumber ?prev \<le> lastProven ?e7 \<and> lastProven ?e7 \<noteq> 0"
    by (simp add: example_frame_def)
  have first: "prove example_deps example_engine ?prev = (Return (Inr (example_frame 5 1000)), ?e1)"
    by (simp add: example_unfold)
  have h2: "FrameNumber ?prev \<noteq> 0"
    by (simp add: example_frame_def)
  from prove_short_circuit [where e="?e7" and prev="?prev" and d=example_deps] h1
  have a: "prove example_deps ?e7 ?prev = (Return (Inr ?prev), ?e7)"
    by blast
  from prove_short_circuit [where e=example_engine and prev="?prev" and d=example_deps
      and f="example_frame 5 1000" and ?e1.0="?e1" and d'=example_deps] first h2
  have b: "prove example_deps ?e1 ?prev = (Return (Inr ?prev), ?e1)"
    by blast
  have first': "fst (prove example_deps example_engine ?prev) = Return (Inr (example_frame 5 1000))"
    by (simp add: example_unfold)
  from a b h1 first' show ?thesis
    by simp
qed

text \<open>
  The claim C5 as stated fails for the genesis frame: a successful \<open>prove\<close> of a frame
  numbered 0 sets \<open>lastProven\<close> to 0, which the guard \<open>lastProven != 0\<close> reads as
  nothing proven yet, so the second call runs the pipeline again and returns a new
  frame 1 rather than \<open>prev\<close>.
\<close>

theorem prove_twice_genesis_counterexample:
  "fst (prove example_deps example_engine (example_frame 0 5)) = Return (Inr (example_frame 1 1000))
   \<and> fst (prove example_deps (snd (prove example_deps example_engine (example_frame 0 5)))
        (example_frame 0 5)) = Return (Inr (example_frame 1 1000))
   \<and> example_frame 1 1000 \<noteq> example_frame 0 5"
  by (simp add: example_unfold)

lemma prove_error_path:
  assumes "prove d e prev = (Return (Inl err), e')"
  shows "\<not> short_circuit e prev \<and> lastProven e' = lastProven e"
  using assms
  by (auto simp: prove_unfold short_circuit_def Let_def
      split: sum.splits option.splits prod.splits if_splits dest!: prove_output_lastProven_err)

text \<open>
  Claim C8. Whenever \<open>prove(prev)\<close> returns an error, from whichever step, the
  engine's \<open>lastProven\<close> is what it was before the call, and the short-circuit test
  still fails for \<open>prev\<close>: the next call with the same \<open>prev\<close> runs the pipeline
  again.
\<close>

theorem prove_error_keeps_lastProven:
  "prove d e prev = (Return (Inl err), e')
   \<Longrightarrow> lastProven e' = lastProven e
       \<and> \<not> (lastProven e' \<ge> FrameNumber prev \<and> lastProven e' \<noteq> 0)"
  using prove_error_path [of d e prev err e'] by (simp add: short_circuit_def)

theorem prove_error_keeps_lastProven_witness:
  "prove (example_deps\<lparr>CommitRaw := \<lambda>data n. Inl (Error ''commit'')\<rparr>)
      (example_engine\<lparr>lastProven := 3\<rparr>) (example_frame 4 5)
    = (Return (Inl (Wrap (Error ''commit'') ''prove'')),
       snd (prove (example_deps\<lparr>CommitRaw := \<lambda>data n. Inl (Error ''commit'')\<rparr>)
         (example_engine\<lparr>lastProven := 3\<rparr>) (example_frame 4 5)))
   \<and> lastProven (snd (prove (example_deps\<lparr>CommitRaw := \<lambda>data n. Inl (Error ''commit'')\<rparr>)
         (example_engine\<lparr>lastProven := 3\<rparr>) (example_frame 4 5))) = 3"
proof -
  let ?d = "example_deps\<lparr>CommitRaw := \<lambda>data n. Inl (Error ''commit'')\<rparr>"
  let ?e = "example_engine\<lparr>lastProven := 3\<rparr>"
  let ?r = "prove ?d ?e (example_frame 4 5)"
  have r: "?r = (Return (Inl (Wrap (Error ''commit'') ''prove'')), snd ?r)"
    by (simp add: example_unfold)
  from prove_error_keeps_lastProven [OF r] have "lastProven (snd ?r) = lastProven ?e"
    by simp
  with r show ?thesis
    by (simp add: example_engine_def)
qed

lemma prove_reaches_transitions:
  assumes "\<not> (lastProven e \<ge> FrameNumber prev \<and> lastProven e \<noteq> 0)"
    and "MaterializeApplicationFromFrame d (provingKey e) prev
           (fst (GetDataClockFrame d (filter_id e) (FrameNumber prev) False)) = Inr app"
  shows "stagedTransactions (snd (prove d e prev)) = Some []
     \<and> \<not> stagedTransactionsMx (snd (prove d e prev))
     \<and> (\<exists>rest. trace (snd (prove d e prev)) =
           trace e @ [Lock, Call_GetDataClockFrame, Call_MaterializeApplicationFromFrame,
                      Call_ApplyTransitions, Unlock] @ rest
         \<and> set rest \<subseteq> {Call_MaterializeStateFromApplication, Call_CommitRaw, Call_ProveRaw,
                         Call_ProveDataClockFrame})"
proof -
  obtain tries err where g: "GetDataClockFrame d (filter_id e) (FrameNumber prev) False = (tries, err)"
    by (cases "GetDataClockFrame d (filter_id e) (FrameNumber prev) False")
  define e2 where "e2 = called Call_ApplyTransitions
    (called Call_MaterializeApplicationFromFrame (called Call_GetDataClockFrame (stagedTransactionsMx_Lock e)))"
  define e3 where "e3 = stagedTransactionsMx_Unlock (e2\<lparr>stagedTransactions := Some []\<rparr>)"
  have e3: "stagedTransactions e3 = Some []" "\<not> stagedTransactionsMx e3"
    "trace e3 = trace e @ [Lock, Call_GetDataClockFrame, Call_MaterializeApplicationFromFrame,
                      Call_ApplyTransitions, Unlock]"
    by (simp_all add: e3_def e2_def called_def stagedTransactionsMx_Lock_def
        stagedTransactionsMx_Unlock_def)
  let ?staged = "case stagedTransactions e of None \<Rightarrow> [] | Some requests \<Rightarrow> requests"
  show ?thesis
  proof (cases "ApplyTransitions d app (FrameNumber prev + 1) ?staged True")
    case (Inl aerr)
    with assms g have "snd (prove d e prev) = e3"
      by (auto simp: prove_unfold e3_def e2_def split: option.splits)
    with e3 show ?thesis by simp
  next
    case (Inr r)
    obtain app' valid invalid where r: "r = (app', valid, invalid)"
      by (cases r)
    with Inr assms g have "prove d e prev = prove_output d e3 prev app' valid"
      by (auto simp: prove_unfold e3_def e2_def split: option.splits)
    with e3 prove_output_staged [of d e3 prev app' valid] prove_output_trace [of d e3 prev app' valid]
    show ?thesis by auto
  qed
qed

text \<open>
  Claim C7. Every call of \<open>prove\<close> that reaches the transition-application step (the
  short-circuit test fails and the application materializes) ends with the staging
  buffer replaced by a fresh empty request list and the staging mutex free, whether
  \<open>ApplyTransitions\<close> and the later steps succeed or fail: the requests of a failed
  round are not put back. The mutex is released right after \<open>ApplyTransitions\<close>, and
  every later call (\<open>MaterializeStateFromApplication\<close>, \<open>CommitRaw\<close>, \<open>ProveRaw\<close>,
  \<open>ProveDataClockFrame\<close>) comes after that release, with no further \<open>Lock\<close>.
\<close>

theorem prove_resets_staging:
  assumes "\<not> (lastProven e \<ge> FrameNumber prev \<and> lastProven e \<noteq> 0)"
    and "MaterializeApplicationFromFrame d (provingKey e) prev
           (fst (GetDataClockFrame d (filter_id e) (FrameNumber prev) False)) = Inr app"
  shows "stagedTransactions (snd (prove d e prev)) = Some []
     \<and> \<not> stagedTransactionsMx (snd (prove d e prev))
     \<and> (\<exists>rest. trace (snd (prove d e prev)) =
           trace e @ [Lock, Call_GetDataClockFrame, Call_MaterializeApplicationFromFrame,
                      Call_ApplyTransitions, Unlock] @ rest
         \<and> set rest \<subseteq> {Call_MaterializeStateFromApplication, Call_CommitRaw, Call_ProveRaw,
                         Call_ProveDataClockFrame})"
  using assms by (rule prove_reaches_transitions)

theorem prove_resets_staging_witness:
  "\<not> (lastProven example_engine \<ge> FrameNumber (example_frame 4 5) \<and> lastProven example_engine \<noteq> 0)
   \<and> fst (prove (example_deps\<lparr>ProveRaw := \<lambda>data p n. Inl (Error ''open'')\<rparr>)
        (example_engine\<lparr>stagedTransactions := Some [[7]]\<rparr>) (example_frame 4 5))
       = Return (Inl (Wrap (Error ''open'') ''prove''))
   \<and> stagedTransactions (snd (prove (example_deps\<lparr>ProveRaw := \<lambda>data p n. Inl (Error ''open'')\<rparr>)
        (example_engine\<lparr>stagedTransactions := Some [[7]]\<rparr>) (example_frame 4 5))) = Some []
   \<and> \<not> stagedTransactionsMx (snd (prove (example_deps\<lparr>ProveRaw := \<lambda>data p n. Inl (Error ''open'')\<rparr>)
        (example_engine\<lparr>stagedTransactions := Some [[7]]\<rparr>) (example_frame 4 5)))"
proof -
  let ?d = "example_deps\<lparr>ProveRaw := \<lambda>data p n. Inl (Error ''open'')\<rparr>"
  let ?e = "example_engine\<lparr>stagedTransactions := Some [[7]]\<rparr>"
  let ?prev = "example_frame 4 5"
  have h1: "\<not> (lastProven ?e \<ge> FrameNumber ?prev \<and> lastProven ?e \<noteq> 0)"
    by (simp add: example_engine_def)
  have h2: "MaterializeApplicationFromFrame ?d (provingKey ?e) ?prev
           (fst (GetDataClockFrame ?d (filter_id ?e) (FrameNumber ?prev) False)) = Inr ()"
    by (simp add: example_deps_def)
  have r: "fst (prove ?d ?e ?prev) = Return (Inl (Wrap (Error ''open'') ''prove''))"
    by (simp add: example_unfold)
  from prove_resets_staging [OF h1 h2] r show ?thesis
    by (simp add: example_engine_def)
qed

text \<open>
  Claim C9. The error that the clock store returns when loading the tries for
  \<open>prev.frame_number\<close> never reaches the caller: \<open>prove\<close> gives the same result and
  the same state whether the load returns an error or none. Past the short-circuit
  test, \<open>prove\<close> goes on to \<open>ApplyTransitions\<close> whenever the application materializes,
  and returns at this stage only when materialization fails, with the materialization's
  error wrapped in the tag \<open>prove\<close>.
\<close>

theorem prove_ignores_load_error:
  "prove (d\<lparr>GetDataClockFrame := \<lambda>f n b. (tries f n b, load_err f n b)\<rparr>) e prev
     = prove (d\<lparr>GetDataClockFrame := \<lambda>f n b. (tries f n b, None)\<rparr>) e prev
   \<and> (\<not> (lastProven e \<ge> FrameNumber prev \<and> lastProven e \<noteq> 0)
        \<and> MaterializeApplicationFromFrame d (provingKey e) prev
             (fst (GetDataClockFrame d (filter_id e) (FrameNumber prev) False)) = Inr app
      \<longrightarrow> Call_ApplyTransitions \<in> set (trace (snd (prove d e prev))))
   \<and> (\<not> (lastProven e \<ge> FrameNumber prev \<and> lastProven e \<noteq> 0)
        \<and> MaterializeApplicationFromFrame d (provingKey e) prev
             (fst (GetDataClockFrame d (filter_id e) (FrameNumber prev) False)) = Inl merr
      \<longrightarrow> fst (prove d e prev) = Return (Inl (Wrap merr ''prove''))
          \<and> Call_ApplyTransitions \<notin> set (trace (snd (prove d e prev))) - set (trace e))"
proof (intro conjI impI)
  show "prove (d\<lparr>GetDataClockFrame := \<lambda>f n b. (tries f n b, load_err f n b)\<rparr>) e prev
     = prove (d\<lparr>GetDataClockFrame := \<lambda>f n b. (tries f n b, None)\<rparr>) e prev"
    by (simp add: prove_def prove_output_deps cong: sum.case_cong option.case_cong prod.case_cong)
next
  assume a: "\<not> (lastProven e \<ge> FrameNumber prev \<and> lastProven e \<noteq> 0)
        \<and> MaterializeApplicationFromFrame d (provingKey e) prev
             (fst (GetDataClockFrame d (filter_id e) (FrameNumber prev) False)) = Inr app"
  then obtain rest where "trace (snd (prove d e prev)) =
           trace e @ [Lock, Call_GetDataClockFrame, Call_MaterializeApplicationFromFrame,
                      Call_ApplyTransitions, Unlock] @ rest"
    using prove_reaches_transitions [where e=e and prev=prev and d=d and app=app] by blast
  then show "Call_ApplyTransitions \<in> set (trace (snd (prove d e prev)))"
    by simp
next
  assume a: "\<not> (lastProven e \<ge> FrameNumber prev \<and> lastProven e \<noteq> 0)
        \<and> MaterializeApplicationFromFrame d (provingKey e) prev
             (fst (GetDataClockFrame d (filter_id e) (FrameNumber prev) False)) = Inl merr"
  then have "prove d e prev = (Return (Inl (Wrap merr ''prove'')),
      e\<lparr>stagedTransactionsMx := False,
        trace := trace e @ [Lock, Call_GetDataClockFrame, Call_MaterializeApplicationFromFrame, Unlock]\<rparr>)"
    by (auto simp: prove_unfold split: prod.splits)
  then show "fst (prove d e prev) = Return (Inl (Wrap merr ''prove''))"
    and "Call_ApplyTransitions \<notin> set (trace (snd (prove d e prev))) - set (trace e)"
    by auto
qed

theorem prove_ignores_load_error_witness:
  "GetDataClockFrame example_deps [] 4 False = ((), Some (Error ''load''))
   \<and> fst (prove example_deps example_engine (example_frame 4 5)) = Return (Inr (example_frame 5 1000))
   \<and> Call_ApplyTransitions \<in> set (trace (snd (prove example_deps example_engine (example_frame 4 5))))
   \<and> fst (prove (example_deps\<lparr>MaterializeApplicationFromFrame := \<lambda>k f t. Inl (Error ''app'')\<rparr>)
        example_engine (example_frame 4 5)) = Return (Inl (Wrap (Error ''app'') ''prove''))"
proof -
  let ?prev = "example_frame 4 5"
  let ?d' = "example_deps\<lparr>MaterializeApplicationFromFrame := \<lambda>k f t. Inl (Error ''app'')\<rparr>"
  have h1: "\<not> (lastProven example_engine \<ge> FrameNumber ?prev \<and> lastProven example_engine \<noteq> 0)"
    by (simp add: example_engine_def)
  have h2: "MaterializeApplicationFromFrame example_deps (provingKey example_engine) ?prev
           (fst (GetDataClockFrame example_deps (filter_id example_engine) (FrameNumber ?prev) False))
           = Inr ()"
    by (simp add: example_deps_def)
  have h3: "MaterializeApplicationFromFrame ?d' (provingKey example_engine) ?prev
           (fst (GetDataClockFrame ?d' (filter_id example_engine) (FrameNumber ?prev) False))
           = Inl (Error ''app'')"
    by (simp add: example_deps_def)
  have g: "GetDataClockFrame example_deps [] 4 False = ((), Some (Error ''load''))"
    by (simp add: example_deps_def)
  have r: "fst (prove example_deps example_engine ?prev) = Return (Inr (example_frame 5 1000))"
    by (simp add: example_unfold)
  from prove_ignores_load_error [where d=example_deps and e=example_engine and prev="?prev"
      and app="()"]
    h1 h2
  have "Call_ApplyTransitions \<in> set (trace (snd (prove example_deps example_engine ?prev)))"
    by blast
  moreover from prove_ignores_load_error [where d="?d'" and e=example_engine
      and prev="?prev" and merr="Error ''app''"] h1 h3
  have "fst (prove ?d' example_engine ?prev) = Return (Inl (Wrap (Error ''app'') ''prove''))"
    by blast
  ultimately show ?thesis using g r by simp
qed

section \<open>Properties of \<open>GetAheadPeers\<close>\<close>

lemma ahead_loop_eq:
  "ahead_loop r e h vs (cs, m) =
     (cs @ map candidate_of (filter (cooperative_ahead r e h) vs),
      fold (\<lambda>v m. max m (maxFrame v - h)) (filter (cooperative_ahead r e h) vs) m)"
proof (induction vs arbitrary: cs m)
  case Nil
  show ?case by simp
next
  case (Cons v vs)
  show ?case
  proof (cases "cooperative_ahead r e h v")
    case True
    then show ?thesis
      by (simp add: Cons.IH cooperative_ahead_def candidate_of_def not_le not_less)
  next
    case False
    then show ?thesis
      by (auto simp: Cons.IH cooperative_ahead_def not_le not_less)
  qed
qed

lemma fold_max_diff:
  fixes m :: uint64
  shows "fold (\<lambda>v m. max m (f v)) vs m = Max (insert m (f ` set vs))"
proof (induction vs arbitrary: m)
  case Nil
  show ?case by simp
next
  case (Cons v vs)
  have "Max (insert (max m (f v)) (f ` set vs)) = Max (insert m (insert (f v) (f ` set vs)))"
    by (cases "vs = []") (simp_all add: max.assoc)
  then show ?case by (simp add: Cons.IH)
qed

lemma Max_insert_0:
  fixes D :: "uint64 set"
  assumes "finite D" "D \<noteq> {}"
  shows "Max (insert 0 D) = Max D"
  using assms by (simp add: max_def)

lemma word_diff_pos:
  fixes a b :: uint64
  assumes "a < b"
  shows "0 < b - a"
  using assms by (simp add: word_neq_0_conv [symmetric])

lemma ahead_loop_result:
  "ahead_loop r e h (map snd (peerMap e)) ([], 0) =
     (ahead_peers r e h, Max (insert 0 ((\<lambda>c. MaxFrame c - h) ` set (ahead_peers r e h))))"
proof -
  let ?vs = "filter (cooperative_ahead r e h) (map snd (peerMap e))"
  have "(\<lambda>v. maxFrame v - h) ` set ?vs = (\<lambda>c. MaxFrame c - h) ` set (map candidate_of ?vs)"
    by (simp add: image_image candidate_of_def)
  then show ?thesis
    by (simp add: ahead_loop_eq fold_max_diff ahead_peers_def candidate_of_def)
qed

lemma ahead_peers_diff_pos:
  assumes "c \<in> set (ahead_peers r e h)"
  shows "0 < MaxFrame c - h"
  using assms by (auto simp: ahead_peers_def cooperative_ahead_def intro: word_diff_pos)

text \<open>\<open>round_half_even\<close> is within one half of the exact quotient, and monotone.\<close>

lemma round_half_even_nearest:
  assumes "0 < d"
  shows "\<bar>real (round_half_even n d) - real n / real d\<bar> \<le> 1 / 2"
proof -
  define q where "q = n div d"
  define r where "r = n mod d"
  have n: "real n = real q * real d + real r"
    by (metis q_def r_def div_mult_mod_eq of_nat_add of_nat_mult)
  from assms have d: "0 < real d" by simp
  have quo: "real n / real d = real q + real r / real d"
    using d by (simp add: n field_simps)
  have r: "r < d" using assms by (simp add: r_def)
  consider "2 * r < d" | "d < 2 * r" | "2 * r = d"
    by linarith
  then show ?thesis
  proof cases
    case 1
    then have "round_half_even n d = q"
      by (simp add: round_half_even_def Let_def q_def r_def)
    moreover from 1 have "2 * real r < real d" by (metis of_nat_less_iff of_nat_mult of_nat_numeral)
    ultimately show ?thesis using d by (simp add: quo field_simps)
  next
    case 2
    then have "round_half_even n d = q + 1"
      by (simp add: round_half_even_def Let_def q_def r_def)
    moreover from 2 have "real d < 2 * real r" by (metis of_nat_less_iff of_nat_mult of_nat_numeral)
    moreover from r have "real r < real d" by simp
    ultimately show ?thesis using d by (simp add: quo field_simps abs_if)
  next
    case 3
    then have "round_half_even n d = q \<or> round_half_even n d = q + 1"
      by (simp add: round_half_even_def Let_def q_def r_def)
    moreover from 3 have "2 * real r = real d" by (metis of_nat_mult of_nat_numeral)
    ultimately show ?thesis using d by (auto simp: quo field_simps abs_if)
  qed
qed

lemma rhe_bounds:
  "n div d \<le> round_half_even n d \<and> round_half_even n d \<le> n div d + 1"
  by (simp add: round_half_even_def Let_def)

lemma rhe_exact: "0 < d \<Longrightarrow> round_half_even (q * d) d = q"
  by (simp add: round_half_even_def Let_def)

lemma rhe_mono:
  assumes "0 < d" "n \<le> n'"
  shows "round_half_even n d \<le> round_half_even n' d"
proof (cases "n div d < n' div d")
  case True
  have "round_half_even n d \<le> n div d + 1" using rhe_bounds [of n d] by blast
  also from True have "\<dots> \<le> n' div d" by simp
  also have "\<dots> \<le> round_half_even n' d" using rhe_bounds [of n' d] by blast
  finally show ?thesis .
next
  case False
  with assms have q: "n div d = n' div d"
    by (simp add: div_le_mono le_antisym not_less)
  have "n = n div d * d + n mod d" "n' = n' div d * d + n' mod d"
    by simp_all
  with q assms(2) have "n mod d \<le> n' mod d"
    by (metis add_le_cancel_left)
  with q show ?thesis
    unfolding round_half_even_def Let_def by (simp only: q) auto
qed

lemma float64_quo_unit:
  assumes "0 < a" "a \<le> b"
  shows "\<exists>v. float64_quo a b = Finite v \<and> 0 \<le> v \<and> v \<le> 1"
proof -
  define k where "k = int (floorlog 2 a) - int (floorlog 2 b)"
  define e where "e = (if b * 2 ^ nat k \<le> a * 2 ^ nat (- k) then k else k - 1)"
  define s where "s = 52 - e"
  define m where "m = round_half_even (a * 2 ^ nat s) (b * 2 ^ nat (- s))"
  from assms have b: "0 < b" by simp
  from assms(2) have "k \<le> 0"
    by (simp add: k_def floorlog_mono)
  then have "e \<le> 0" by (simp add: e_def)
  then have s: "0 \<le> s" "nat (- s) = 0" by (simp_all add: s_def)
  from assms(2) have "a * 2 ^ nat s \<le> b * 2 ^ nat s" by simp
  with b have "round_half_even (a * 2 ^ nat s) b \<le> round_half_even (2 ^ nat s * b) b"
    by (intro rhe_mono) (simp_all add: mult.commute)
  with b s have "m \<le> 2 ^ nat s"
    by (simp add: m_def rhe_exact)
  then have "real m \<le> 2 ^ nat s"
    by (metis of_nat_le_iff of_nat_numeral of_nat_power)
  then have "real m * 2 ^ nat (- s) / 2 ^ nat s \<le> 1" "0 \<le> real m * 2 ^ nat (- s) / 2 ^ nat s"
    using s by (simp_all add: field_simps)
  moreover from assms b have "float64_quo a b = Finite (real m * 2 ^ nat (- s) / 2 ^ nat s)"
    by (simp add: float64_quo_def Let_def m_def s_def e_def k_def)
  ultimately show ?thesis by blast
qed

lemma float64_of_nat_shape:
  fixes n :: nat
  defines "L \<equiv> floorlog 2 n"
  assumes "0 < n"
  shows "2 ^ (L - 1) \<le> round_half_even n (2 ^ (L - 53)) * 2 ^ (L - 53)
       \<and> round_half_even n (2 ^ (L - 53)) * 2 ^ (L - 53) \<le> 2 ^ L"
proof -
  from assms have bounds: "2 ^ (L - 1) \<le> n" "n < 2 ^ L"
    using floorlog_bounds [of n 2] by simp_all
  show ?thesis
  proof (cases "L \<le> 53")
    case True
    then have "round_half_even n (2 ^ (L - 53)) * 2 ^ (L - 53) = n"
      by (simp add: round_half_even_def)
    with bounds show ?thesis by simp
  next
    case False
    define sh where "sh = L - 53"
    from False have L: "L = sh + 53" "L - 1 = sh + 52" by (simp_all add: sh_def)
    have "(2::nat) ^ 52 * 2 ^ sh \<le> n" using bounds(1) by (simp add: L power_add mult.commute)
    then have "2 ^ 52 \<le> n div 2 ^ sh"
      by (simp add: less_eq_div_iff_mult_less_eq)
    then have lo: "2 ^ 52 \<le> round_half_even n (2 ^ sh)"
      using rhe_bounds [of n "2 ^ sh"] by linarith
    have "n < 2 ^ 53 * 2 ^ sh" using bounds(2) by (simp add: L power_add mult.commute)
    then have "n div 2 ^ sh < 2 ^ 53"
      by (simp add: less_mult_imp_div_less)
    then have hi: "round_half_even n (2 ^ sh) \<le> 2 ^ 53"
      using rhe_bounds [of n "2 ^ sh"] by linarith
    from lo have "(2::nat) ^ 52 * 2 ^ sh \<le> round_half_even n (2 ^ sh) * 2 ^ sh"
      by (rule mult_le_mono1)
    moreover from hi have "round_half_even n (2 ^ sh) * 2 ^ sh \<le> 2 ^ 53 * 2 ^ sh"
      by (rule mult_le_mono1)
    ultimately show ?thesis
      by (simp add: L power_add mult.commute flip: sh_def)
  qed
qed

lemma float64_of_uint64_mono:
  assumes "x \<le> y"
  shows "float64_of_uint64 x \<le> float64_of_uint64 y"
proof -
  define n where "n = unat x"
  define n' where "n' = unat y"
  from assms have le: "n \<le> n'" by (simp add: n_def n'_def word_le_nat_alt)
  define L where "L = floorlog 2 n"
  define L' where "L' = floorlog 2 n'"
  from le have LL: "L \<le> L'" by (simp add: L_def L'_def floorlog_mono)
  have f: "float64_of_uint64 x = round_half_even n (2 ^ (L - 53)) * 2 ^ (L - 53)"
    "float64_of_uint64 y = round_half_even n' (2 ^ (L' - 53)) * 2 ^ (L' - 53)"
    by (simp_all add: float64_of_uint64_def Let_def n_def n'_def L_def L'_def)
  show ?thesis
  proof (cases "n = 0")
    case True
    then show ?thesis by (simp add: f round_half_even_def L_def)
  next
    case pos: False
    with le have pos': "0 < n'" "0 < n" by simp_all
    show ?thesis
    proof (cases "L - 53 = L' - 53")
      case True
      with le show ?thesis
        by (simp add: f rhe_mono)
    next
      case False
      with LL have "L < L'" by (cases "L = L'") simp_all
      then have "L \<le> L' - 1" by simp
      from float64_of_nat_shape [OF pos'(2)]
      have "float64_of_uint64 x \<le> 2 ^ L" by (simp add: f L_def)
      also from \<open>L \<le> L' - 1\<close> have "\<dots> \<le> (2::nat) ^ (L' - 1)"
        by (simp add: power_increasing)
      also from float64_of_nat_shape [OF pos'(1)]
      have "\<dots> \<le> float64_of_uint64 y" by (simp add: f L'_def)
      finally show ?thesis .
    qed
  qed
qed

lemma float64_of_uint64_pos:
  assumes "0 < x"
  shows "0 < float64_of_uint64 x"
proof -
  from assms have "0 < unat x" by (simp add: unat_gt_0 word_neq_0_conv)
  from float64_of_nat_shape [OF this]
  have "2 ^ (floorlog 2 (unat x) - 1) \<le> float64_of_uint64 x"
    by (simp add: float64_of_uint64_def Let_def)
  moreover have "(0::nat) < 2 ^ (floorlog 2 (unat x) - 1)" by simp
  ultimately show ?thesis by linarith
qed

lemma truncate_with_weight:
  "PeerCandidate.truncate (with_weight h m c) = c"
  by (simp add: with_weight_def PeerCandidate.truncate_def PeerCandidate.extend_def)

lemma MaxFrame_with_weight:
  "MaxFrame (with_weight h m c) = MaxFrame c"
  "Weight (with_weight h m c) = float64_quo (float64_of_uint64 (MaxFrame c - h)) (float64_of_uint64 m)"
  by (simp_all add: with_weight_def PeerCandidate.extend_def WeightedPeerCandidate.fields_def)

text \<open>
  Claim C6. When the engine's address is in the first prover trie, \<open>GetAheadPeers\<close>
  returns the empty list. Otherwise it hands the sampler the weighted candidates of
  exactly the cooperative peers whose \<open>max_frame\<close> is strictly greater than the head
  (none of them: it returns the empty list), asking for all of them; each weight is the
  \<open>float64\<close> quotient of \<open>max_frame - head\<close> by the maximum of these differences over
  the candidates, where \<open>0 < max_frame - head \<le>\<close> that maximum, and it is a finite
  number between 0 and 1. With a sampler that returns the candidates it was given, in any
  order, the returned list holds exactly these peers.
\<close>

theorem GetAheadPeers_candidates:
  assumes "frameProverTries e = trie0 # tries"
  shows "(trie_Contains r trie0 (provingKeyAddress e) \<longrightarrow> GetAheadPeers r e head = Return [])
    \<and> (\<not> trie_Contains r trie0 (provingKeyAddress e) \<longrightarrow>
         (\<exists>ws. GetAheadPeers r e head =
                 Return (if ws = [] then []
                         else WeightedSampleWithoutReplacement r ws (length ws))
            \<and> map PeerCandidate.truncate ws = ahead_peers r e head
            \<and> (\<forall>w \<in> set ws.
                  Weight w = float64_quo (float64_of_uint64 (MaxFrame w - head))
                               (float64_of_uint64 (Max ((\<lambda>c. MaxFrame c - head) ` set ws)))
                  \<and> (\<exists>v. Weight w = Finite v \<and> 0 \<le> v \<and> v \<le> 1)
                  \<and> 0 < MaxFrame w - head
                  \<and> MaxFrame w - head \<le> Max ((\<lambda>c. MaxFrame c - head) ` set ws))))
    \<and> (\<not> trie_Contains r trie0 (provingKeyAddress e)
        \<and> (\<forall>ws. mset (WeightedSampleWithoutReplacement r ws (length ws))
                    = mset (map PeerCandidate.truncate ws))
        \<longrightarrow> (\<exists>out. GetAheadPeers r e head = Return out \<and> mset out = mset (ahead_peers r e head)))"
proof -
  define cs where "cs = ahead_peers r e head"
  define m where "m = Max (insert 0 ((\<lambda>c. MaxFrame c - head) ` set cs))"
  define ws where "ws = map (with_weight head m) cs"
  have loop: "ahead_loop r e head (map snd (peerMap e)) ([], 0) = (cs, m)"
    by (simp add: ahead_loop_result cs_def m_def)
  have trunc: "map PeerCandidate.truncate ws = cs"
    by (simp add: ws_def truncate_with_weight o_def)
  have img: "(\<lambda>c. MaxFrame c - head) ` set ws = (\<lambda>c. MaxFrame c - head) ` set cs"
    by (simp add: ws_def image_image MaxFrame_with_weight)
  have m_eq: "m = Max ((\<lambda>c. MaxFrame c - head) ` set ws)" if "ws \<noteq> []"
  proof -
    from that have "cs \<noteq> []" by (simp add: ws_def)
    then have "Max (insert 0 ((\<lambda>c. MaxFrame c - head) ` set cs))
                 = Max ((\<lambda>c. MaxFrame c - head) ` set cs)"
      by (intro Max_insert_0) simp_all
    then show ?thesis by (simp add: m_def img)
  qed
  have res: "GetAheadPeers r e head =
      Return (if ws = [] then [] else WeightedSampleWithoutReplacement r ws (length ws))"
    if "\<not> trie_Contains r trie0 (provingKeyAddress e)"
    using that assms by (simp add: GetAheadPeers_def loop ws_def)
  have weights: "Weight w = float64_quo (float64_of_uint64 (MaxFrame w - head))
                               (float64_of_uint64 (Max ((\<lambda>c. MaxFrame c - head) ` set ws)))
                  \<and> (\<exists>v. Weight w = Finite v \<and> 0 \<le> v \<and> v \<le> 1)
                  \<and> 0 < MaxFrame w - head
                  \<and> MaxFrame w - head \<le> Max ((\<lambda>c. MaxFrame c - head) ` set ws)"
    if w: "w \<in> set ws" for w
  proof -
    from w obtain c where c: "c \<in> set cs" "w = with_weight head m c"
      by (auto simp: ws_def)
    from w have ne: "ws \<noteq> []" by auto
    have "MaxFrame w - head \<in> (\<lambda>c. MaxFrame c - head) ` set ws"
      using w by blast
    then have le: "MaxFrame w - head \<le> Max ((\<lambda>c. MaxFrame c - head) ` set ws)"
      by (intro Max_ge) simp_all
    have pos: "0 < MaxFrame w - head"
      using c ahead_peers_diff_pos [of c r e head] by (simp add: cs_def MaxFrame_with_weight)
    have quo: "Weight w = float64_quo (float64_of_uint64 (MaxFrame w - head))
                 (float64_of_uint64 (Max ((\<lambda>c. MaxFrame c - head) ` set ws)))"
      using c m_eq [OF ne] by (simp add: MaxFrame_with_weight)
    from float64_quo_unit [OF float64_of_uint64_pos [OF pos] float64_of_uint64_mono [OF le]] quo
    have "\<exists>v. Weight w = Finite v \<and> 0 \<le> v \<and> v \<le> 1"
      by simp
    with le pos quo show ?thesis by blast
  qed
  show ?thesis
  proof (intro conjI impI)
    assume "trie_Contains r trie0 (provingKeyAddress e)"
    with assms show "GetAheadPeers r e head = Return []"
      by (simp add: GetAheadPeers_def)
  next
    assume "\<not> trie_Contains r trie0 (provingKeyAddress e)"
    with res trunc weights
    show "\<exists>ws. GetAheadPeers r e head =
                 Return (if ws = [] then []
                         else WeightedSampleWithoutReplacement r ws (length ws))
            \<and> map PeerCandidate.truncate ws = ahead_peers r e head
            \<and> (\<forall>w \<in> set ws.
                  Weight w = float64_quo (float64_of_uint64 (MaxFrame w - head))
                               (float64_of_uint64 (Max ((\<lambda>c. MaxFrame c - head) ` set ws)))
                  \<and> (\<exists>v. Weight w = Finite v \<and> 0 \<le> v \<and> v \<le> 1)
                  \<and> 0 < MaxFrame w - head
                  \<and> MaxFrame w - head \<le> Max ((\<lambda>c. MaxFrame c - head) ` set ws))"
      unfolding cs_def by blast
  next
    assume a: "\<not> trie_Contains r trie0 (provingKeyAddress e)
        \<and> (\<forall>ws. mset (WeightedSampleWithoutReplacement r ws (length ws))
                    = mset (map PeerCandidate.truncate ws))"
    show "\<exists>out. GetAheadPeers r e head = Return out \<and> mset out = mset (ahead_peers r e head)"
    proof (cases "ws = []")
      case True
      with res a trunc show ?thesis by (simp add: cs_def)
    next
      case False
      from trunc have "mset (map PeerCandidate.truncate ws) = mset (ahead_peers r e head)"
        by (simp only: cs_def)
      with False res a show ?thesis by simp
    qed
  qed
qed

text \<open>
  The weights of the two candidates of the example, 3/7 and 7/7 in \<open>float64\<close>:
  0.42857142857142855 and 1.
\<close>

lemma example_floorlog: "floorlog 2 3 = 2 \<and> floorlog 2 7 = 3"
proof -
  have "floorlog 2 1 = 1" by (simp add: floorlog_def)
  then have 3: "floorlog 2 3 = 2" by (simp add: compute_floorlog [of 2 3])
  then have "floorlog 2 7 = 3" by (simp add: compute_floorlog [of 2 7])
  with 3 show ?thesis by simp
qed

lemma example_weights:
  "float64_quo (float64_of_uint64 3) (float64_of_uint64 7) = Finite (7720456504063707 / 2 ^ 54)"
  "float64_quo (float64_of_uint64 7) (float64_of_uint64 7) = Finite 1"
proof -
  have conv: "float64_of_uint64 3 = 3" "float64_of_uint64 7 = 7"
    by (simp_all add: float64_of_uint64_def round_half_even_def example_floorlog)
  show "float64_quo (float64_of_uint64 3) (float64_of_uint64 7)
          = Finite (7720456504063707 / 2 ^ 54)"
    by (simp add: conv float64_quo_def round_half_even_def example_floorlog Let_def)
  show "float64_quo (float64_of_uint64 7) (float64_of_uint64 7) = Finite 1"
    by (simp add: conv float64_quo_def round_half_even_def example_floorlog Let_def)
qed

lemmas registry_unfold =
  GetAheadPeers_def example_registry_def example_follower_def example_peer_def with_weight_def
  PeerCandidate.truncate_def PeerCandidate.extend_def WeightedPeerCandidate.fields_def

theorem GetAheadPeers_candidates_witness:
  "frameProverTries example_follower = [[[7]]]
   \<and> \<not> trie_Contains example_registry [[7]] (provingKeyAddress example_follower)
   \<and> GetAheadPeers example_registry example_follower 5 =
        Return [\<lparr>PeerID = [2], MaxFrame = 12\<rparr>, \<lparr>PeerID = [1], MaxFrame = 8\<rparr>]
   \<and> mset [\<lparr>PeerID = [2], MaxFrame = 12\<rparr>, \<lparr>PeerID = [1], MaxFrame = 8\<rparr>]
        = mset (ahead_peers example_registry example_follower 5)
   \<and> map Weight (map (with_weight 5 7) (ahead_peers example_registry example_follower 5))
        = [Finite (7720456504063707 / 2 ^ 54), Finite 1]
   \<and> GetAheadPeers example_registry (example_follower\<lparr>provingKeyAddress := [7]\<rparr>) 5 = Return []"
proof -
  have tries: "frameProverTries example_follower = [[7]] # []"
    by (simp add: example_follower_def)
  have tries': "frameProverTries (example_follower\<lparr>provingKeyAddress := [7]\<rparr>) = [[7]] # []"
    by (simp add: example_follower_def)
  have follower: "\<not> trie_Contains example_registry [[7]] (provingKeyAddress example_follower)"
    by (simp add: example_registry_def example_follower_def)
  have leader: "trie_Contains example_registry [[7]]
      (provingKeyAddress (example_follower\<lparr>provingKeyAddress := [7]\<rparr>))"
    by (simp add: example_registry_def)
  have sampler: "\<forall>ws. mset (WeightedSampleWithoutReplacement example_registry ws (length ws))
                    = mset (map PeerCandidate.truncate ws)"
    by (simp add: example_registry_def)
  have run: "GetAheadPeers example_registry example_follower 5 =
        Return [\<lparr>PeerID = [2], MaxFrame = 12\<rparr>, \<lparr>PeerID = [1], MaxFrame = 8\<rparr>]"
    by (simp add: registry_unfold)
  from GetAheadPeers_candidates [OF tries, of example_registry 5] follower sampler
  obtain out where "GetAheadPeers example_registry example_follower 5 = Return out"
    and "mset out = mset (ahead_peers example_registry example_follower 5)"
    by blast
  with run have "mset [\<lparr>PeerID = [2], MaxFrame = 12\<rparr>, \<lparr>PeerID = [1], MaxFrame = 8\<rparr>]
        = mset (ahead_peers example_registry example_follower 5)"
    by simp
  moreover from GetAheadPeers_candidates [OF tries', of example_registry 5] leader
  have "GetAheadPeers example_registry (example_follower\<lparr>provingKeyAddress := [7]\<rparr>) 5 = Return []"
    by blast
  moreover have "map Weight (map (with_weight 5 7) (ahead_peers example_registry example_follower 5))
        = [Finite (7720456504063707 / 2 ^ 54), Finite 1]"
    by (simp add: ahead_peers_def cooperative_ahead_def example_registry_def example_follower_def
        example_peer_def MaxFrame_with_weight example_weights)
  ultimately show ?thesis using tries follower run by simp
qed

section \<open>Properties of \<open>sync\<close> and \<open>collect\<close>\<close>

lemma sync_loop_inserts:
  "sync_loop d e c latest m rpcs = (res, e', c') \<Longrightarrow>
    \<exists>new. e' = e\<lparr>dataTimeReel := dataTimeReel e @ map (\<lambda>f. (f, True)) new\<rparr>
      \<and> consecutive latest new
      \<and> (\<forall>l err. res = Return (Some l, err) \<longrightarrow> l = last (latest # new))
      \<and> (c' \<longrightarrow> c \<and> (\<forall>f \<in> set new. \<exists>key. producer_key f = Some key \<and> IsInProverTrie d key))"
proof (induction rpcs arbitrary: e c latest)
  case Nil
  then have "e' = e\<lparr>dataTimeReel := dataTimeReel e @ map (\<lambda>f. (f, True)) []\<rparr>
      \<and> consecutive latest []
      \<and> (\<forall>l err. res = Return (Some l, err) \<longrightarrow> l = last (latest # []))
      \<and> (c' \<longrightarrow> c \<and> (\<forall>f \<in> set []. \<exists>key. producer_key f = Some key \<and> IsInProverTrie d key))"
    by auto
  then show ?case by blast
next
  case (Cons rpc rpcs)
  let ?stop = "e' = e \<and> (\<forall>l err. res = Return (Some l, err) \<longrightarrow> l = latest) \<and> (c' \<longrightarrow> c)"
  have stop: ?case if ?stop
  proof -
    from that have "e' = e\<lparr>dataTimeReel := dataTimeReel e @ map (\<lambda>f. (f, True)) []\<rparr>
      \<and> consecutive latest []
      \<and> (\<forall>l err. res = Return (Some l, err) \<longrightarrow> l = last (latest # []))
      \<and> (c' \<longrightarrow> c \<and> (\<forall>f \<in> set []. \<exists>key. producer_key f = Some key \<and> IsInProverTrie d key))"
      by simp
    then show ?thesis by blast
  qed
  show ?case
  proof (cases rpc)
    case (Inl err)
    with Cons.prems have ?stop by auto
    then show ?thesis by (rule stop)
  next
    case (Inr resp)
    show ?thesis
    proof (cases resp)
      case None
      with Inr Cons.prems have ?stop by auto
      then show ?thesis by (rule stop)
    next
      case (Some response)
      show ?thesis
      proof (cases "respClockFrame response")
        case None
        with Inr Some Cons.prems have ?stop by auto
        then show ?thesis by (rule stop)
      next
        case (Some frame)
        note frame = Inr \<open>resp = Some response\<close> Some
        show ?thesis
        proof (cases "FrameNumber frame \<noteq> FrameNumber latest + 1
                  \<or> sint (Timestamp frame) < sint (Timestamp latest)")
          case True
          with frame Cons.prems have ?stop by auto
          then show ?thesis by (rule stop)
        next
          case ok: False
          show ?thesis
          proof (cases "producer_key frame")
            case None
            with frame ok Cons.prems have ?stop by auto
            then show ?thesis by (rule stop)
          next
            case (Some key)
            show ?thesis
            proof (cases "VerifyDataClockFrame d frame")
              case (Some verr)
              with frame ok \<open>producer_key frame = Some key\<close> Cons.prems have ?stop
                by (auto simp: Let_def split: if_splits)
              then show ?thesis by (rule stop)
            next
              case None
              let ?e1 = "dataTimeReel_Insert frame True e"
              let ?c1 = "if \<not> IsInProverTrie d key then False else c"
              show ?thesis
              proof (cases "FrameNumber frame \<ge> m")
                case True
                with frame ok \<open>producer_key frame = Some key\<close> None Cons.prems
                have "e' = ?e1" "res = Return (Some frame, None)" "c' = ?c1"
                  by (auto simp: Let_def)
                with ok \<open>producer_key frame = Some key\<close>
                have "e' = e\<lparr>dataTimeReel := dataTimeReel e @ map (\<lambda>f. (f, True)) [frame]\<rparr>
                  \<and> consecutive latest [frame]
                  \<and> (\<forall>l err. res = Return (Some l, err) \<longrightarrow> l = last (latest # [frame]))
                  \<and> (c' \<longrightarrow> c \<and> (\<forall>f \<in> set [frame]. \<exists>key. producer_key f = Some key
                        \<and> IsInProverTrie d key))"
                  by (simp add: dataTimeReel_Insert_def not_less)
                then show ?thesis by blast
              next
                case False
                with frame ok \<open>producer_key frame = Some key\<close> None Cons.prems
                have "sync_loop d ?e1 ?c1 frame m rpcs = (res, e', c')"
                  by (auto simp: Let_def)
                from Cons.IH [OF this] obtain new where
                  new: "e' = ?e1\<lparr>dataTimeReel := dataTimeReel ?e1 @ map (\<lambda>f. (f, True)) new\<rparr>"
                    "consecutive frame new"
                    "\<forall>l err. res = Return (Some l, err) \<longrightarrow> l = last (frame # new)"
                    "c' \<longrightarrow> ?c1 \<and> (\<forall>f \<in> set new. \<exists>key. producer_key f = Some key
                        \<and> IsInProverTrie d key)"
                  by blast
                with ok \<open>producer_key frame = Some key\<close>
                have "e' = e\<lparr>dataTimeReel := dataTimeReel e @ map (\<lambda>f. (f, True)) (frame # new)\<rparr>
                  \<and> consecutive latest (frame # new)
                  \<and> (\<forall>l err. res = Return (Some l, err) \<longrightarrow> l = last (latest # frame # new))
                  \<and> (c' \<longrightarrow> c \<and> (\<forall>f \<in> set (frame # new). \<exists>key. producer_key f = Some key
                        \<and> IsInProverTrie d key))"
                  by (auto simp: dataTimeReel_Insert_def not_less split: if_splits)
                then show ?thesis by blast
              qed
            qed
          qed
        qed
      qed
    qed
  qed
qed

lemma consecutive_numbers:
  "consecutive prev new \<Longrightarrow> unat (FrameNumber prev) + length new < 2 ^ 64 \<Longrightarrow>
     map (\<lambda>f. unat (FrameNumber f)) new
       = [unat (FrameNumber prev) + 1 ..< unat (FrameNumber prev) + 1 + length new]"
proof (induction new arbitrary: prev)
  case Nil
  show ?case by simp
next
  case (Cons f fs)
  from Cons.prems have f: "FrameNumber f = FrameNumber prev + 1" and c: "consecutive f fs"
    by simp_all
  from Cons.prems have "unat (FrameNumber prev) + unat (1 :: uint64) < 2 ^ LENGTH(64)"
    by simp
  then have "unat (FrameNumber prev + 1) = unat (FrameNumber prev) + unat (1 :: uint64)"
    by (simp only: unat_add_lem)
  with f have u: "unat (FrameNumber f) = unat (FrameNumber prev) + 1"
    by simp
  with Cons.prems have "unat (FrameNumber f) + length fs < 2 ^ 64"
    by simp
  from Cons.IH [OF c this] u
  have tl: "map (\<lambda>f. unat (FrameNumber f)) fs
       = [Suc (Suc (unat (FrameNumber prev))) ..< Suc (Suc (unat (FrameNumber prev))) + length fs]"
    by simp
  have "[unat (FrameNumber prev) + 1 ..< unat (FrameNumber prev) + 1 + length (f # fs)]
      = Suc (unat (FrameNumber prev))
        # [Suc (Suc (unat (FrameNumber prev))) ..< Suc (Suc (unat (FrameNumber prev))) + length fs]"
    by (simp del: upt_Suc add: upt_conv_Cons)
  with tl u show ?case
    by (simp del: upt_Suc)
qed

lemmas sync_unfold =
  sync_def sync_deferred_def mark_uncooperative_def dataTimeReel_Insert_def producer_key_def

lemmas example_sync_unfold =
  sync_unfold example_sync_deps_def reply_def foreign_frame_def unverifiable_frame_def
  example_frame_def example_follower_def example_peer_def

text \<open>
  Claim C1. Within one call of \<open>sync\<close> starting from the frame \<open>latest\<close>, the
  frames passed to the time reel's \<open>Insert\<close> (all with \<open>trustedSource\<close> true) are
  consecutive: each has the frame number of the frame held as latest just before it,
  plus one in \<open>uint64\<close>, and a timestamp not before that frame's. As long as the
  numbers stay below \<open>2^64\<close> they are \<open>latest + 1, latest + 2, ...\<close>, strictly
  increasing. The frame that \<open>sync\<close> returns is the last one inserted, or \<open>latest\<close>
  when none was.
\<close>

theorem sync_inserts_consecutive:
  "\<exists>new. dataTimeReel (snd (sync d e latest max_frame peer session))
            = dataTimeReel e @ map (\<lambda>f. (f, True)) new
      \<and> consecutive latest new
      \<and> (unat (FrameNumber latest) + length new < 2 ^ 64 \<longrightarrow>
           map (\<lambda>f. unat (FrameNumber f)) new
             = [unat (FrameNumber latest) + 1 ..< unat (FrameNumber latest) + 1 + length new])
      \<and> (\<forall>l err. fst (sync d e latest max_frame peer session) = Return (Some l, err)
           \<longrightarrow> l = last (latest # new))"
proof (cases "GetDirectChannel session")
  case (Some err)
  then have "dataTimeReel (snd (sync d e latest max_frame peer session))
            = dataTimeReel e @ map (\<lambda>f. (f, True)) []
      \<and> consecutive latest []
      \<and> (unat (FrameNumber latest) + length ([] :: ClockFrame list) < 2 ^ 64 \<longrightarrow>
           map (\<lambda>f. unat (FrameNumber f)) []
             = [unat (FrameNumber latest) + 1 ..< unat (FrameNumber latest) + 1 + length ([] :: ClockFrame list)])
      \<and> (\<forall>l err. fst (sync d e latest max_frame peer session) = Return (Some l, err)
           \<longrightarrow> l = last (latest # []))"
    by (auto simp: sync_unfold Let_def split: option.splits)
  then show ?thesis by blast
next
  case None
  let ?e0 = "e\<lparr>syncingStatus := SyncStatusSynchronizing\<rparr>"
  obtain res e1 c1 where
    loop: "sync_loop d ?e0 True latest max_frame (GetDataFrame session) = (res, e1, c1)"
    by (cases "sync_loop d ?e0 True latest max_frame (GetDataFrame session)")
  from sync_loop_inserts [OF loop] obtain new where
    new: "e1 = ?e0\<lparr>dataTimeReel := dataTimeReel ?e0 @ map (\<lambda>f. (f, True)) new\<rparr>"
      "consecutive latest new"
      "\<forall>l err. res = Return (Some l, err) \<longrightarrow> l = last (latest # new)"
    by blast
  from None loop have run: "sync d e latest max_frame peer session = (res, sync_deferred d peer c1 e1)"
    by (simp add: sync_def)
  have "dataTimeReel (sync_deferred d peer c1 e1) = dataTimeReel e1"
    by (simp add: sync_deferred_def mark_uncooperative_def split: option.splits)
  with new(1) have reel: "dataTimeReel (snd (sync d e latest max_frame peer session))
            = dataTimeReel e @ map (\<lambda>f. (f, True)) new"
    by (simp add: run)
  from new(3) have ret: "\<forall>l err. fst (sync d e latest max_frame peer session) = Return (Some l, err)
           \<longrightarrow> l = last (latest # new)"
    by (simp add: run)
  from consecutive_numbers [OF new(2)] reel new(2) ret show ?thesis
    by blast
qed

theorem sync_inserts_consecutive_witness:
  "dataTimeReel (snd (sync example_sync_deps example_follower (example_frame 5 10) 8 [1]
       example_session))
     = [(example_frame 6 10, True), (example_frame 7 11, True), (example_frame 8 11, True)]
   \<and> consecutive (example_frame 5 10) [example_frame 6 10, example_frame 7 11, example_frame 8 11]
   \<and> map (\<lambda>f. unat (FrameNumber f)) [example_frame 6 10, example_frame 7 11, example_frame 8 11]
       = [6, 7, 8]
   \<and> fst (sync example_sync_deps example_follower (example_frame 5 10) 8 [1] example_session)
       = Return (Some (example_frame 8 11), None)"
proof -
  let ?run = "sync example_sync_deps example_follower (example_frame 5 10) 8 [1] example_session"
  let ?frames = "[example_frame 6 10, example_frame 7 11, example_frame 8 11]"
  have reel: "dataTimeReel (snd ?run) = map (\<lambda>f. (f, True)) ?frames"
    by (simp add: example_sync_unfold example_session_def)
  have ret: "fst ?run = Return (Some (example_frame 8 11), None)"
    by (simp add: example_sync_unfold example_session_def)
  have start: "dataTimeReel example_follower = []" "unat (FrameNumber (example_frame 5 10)) = 5"
    by (simp_all add: example_follower_def example_frame_def)
  from sync_inserts_consecutive [of example_sync_deps example_follower "example_frame 5 10" 8 "[1]"
      example_session]
  obtain new where new: "dataTimeReel (snd ?run) = dataTimeReel example_follower @ map (\<lambda>f. (f, True)) new"
    "consecutive (example_frame 5 10) new"
    "unat (FrameNumber (example_frame 5 10)) + length new < 2 ^ 64 \<longrightarrow>
           map (\<lambda>f. unat (FrameNumber f)) new
             = [unat (FrameNumber (example_frame 5 10)) + 1
                 ..< unat (FrameNumber (example_frame 5 10)) + 1 + length new]"
    by blast
  from new(1) reel start have "map (\<lambda>f. (f, True)) new = map (\<lambda>f. (f, True)) ?frames"
    by simp
  moreover have "inj (\<lambda>f :: ClockFrame. (f, True))"
    by (simp add: inj_on_def)
  ultimately have eq: "new = ?frames"
    by (simp only: inj_map_eq_map)
  have "[(6::nat)..<9] = [6, 7, 8]"
    by (simp add: upt_rec)
  with new(2,3) eq start have "consecutive (example_frame 5 10) ?frames"
    "map (\<lambda>f. unat (FrameNumber f)) ?frames = [6, 7, 8]"
    by simp_all
  with reel ret show ?thesis by simp
qed

lemma sync_loop_pulled:
  "sync_loop d e c latest m rpcs = (res, e', c') \<Longrightarrow>
     e' = e\<lparr>dataTimeReel := dataTimeReel e
            @ map (\<lambda>f. (f, True))
                (filter (\<lambda>f. VerifyDataClockFrame d f = None) (pulled_frames d latest m rpcs))\<rparr>
     \<and> (c' \<longrightarrow> c \<and> (\<forall>f \<in> set (pulled_frames d latest m rpcs).
                         \<exists>key. producer_key f = Some key \<and> IsInProverTrie d key))"
proof (induction rpcs arbitrary: e c latest)
  case Nil
  then show ?case by auto
next
  case (Cons rpc rpcs)
  let ?P = "\<lambda>frames. e' = e\<lparr>dataTimeReel := dataTimeReel e
            @ map (\<lambda>f. (f, True)) (filter (\<lambda>f. VerifyDataClockFrame d f = None) frames)\<rparr>
     \<and> (c' \<longrightarrow> c \<and> (\<forall>f \<in> set frames. \<exists>key. producer_key f = Some key \<and> IsInProverTrie d key))"
  have stop: "?P []" if "e' = e" "c' \<longrightarrow> c"
    using that by simp
  show ?case
  proof (cases rpc)
    case (Inl err)
    with Cons.prems have "e' = e" "c' \<longrightarrow> c" by auto
    then have "?P []" by (rule stop)
    with Inl show ?thesis by simp
  next
    case (Inr resp)
    show ?thesis
    proof (cases resp)
      case None
      with Inr Cons.prems have "e' = e" "c' \<longrightarrow> c" by auto
      then have "?P []" by (rule stop)
      with Inr None show ?thesis by simp
    next
      case (Some response)
      show ?thesis
      proof (cases "respClockFrame response")
        case None
        with Inr Some Cons.prems have "e' = e" "c' \<longrightarrow> c" by auto
        then have "?P []" by (rule stop)
        with Inr Some None show ?thesis by simp
      next
        case (Some frame)
        note frame = Inr \<open>resp = Some response\<close> Some
        show ?thesis
        proof (cases "FrameNumber frame \<noteq> FrameNumber latest + 1
                  \<or> sint (Timestamp frame) < sint (Timestamp latest)")
          case True
          with frame Cons.prems have "e' = e" "c' \<longrightarrow> c" by auto
          then have "?P []" by (rule stop)
          moreover from True frame have "pulled_frames d latest m (rpc # rpcs) = []"
            by auto
          ultimately show ?thesis by simp
        next
          case ok: False
          show ?thesis
          proof (cases "producer_key frame")
            case None
            with frame ok Cons.prems have "e' = e" "c' \<longrightarrow> c" by auto
            then have "?P []" by (rule stop)
            moreover from None frame have "pulled_frames d latest m (rpc # rpcs) = []"
              by simp
            ultimately show ?thesis by simp
          next
            case (Some key)
            let ?c1 = "if \<not> IsInProverTrie d key then False else c"
            let ?e1 = "dataTimeReel_Insert frame True e"
            show ?thesis
            proof (cases "VerifyDataClockFrame d frame")
              case (Some verr)
              with frame ok \<open>producer_key frame = Some key\<close> Cons.prems
              have "e' = e" "c' = ?c1"
                by (auto simp: Let_def)
              moreover from Some frame ok \<open>producer_key frame = Some key\<close>
              have "pulled_frames d latest m (rpc # rpcs) = [frame]"
                by (simp add: not_less)
              ultimately show ?thesis
                using Some \<open>producer_key frame = Some key\<close> by (simp split: if_splits)
            next
              case None
              show ?thesis
              proof (cases "FrameNumber frame \<ge> m")
                case True
                with frame ok \<open>producer_key frame = Some key\<close> None Cons.prems
                have "e' = ?e1" "c' = ?c1"
                  by (auto simp: Let_def)
                moreover from True have "\<not> FrameNumber frame < m"
                  by simp
                with None frame ok \<open>producer_key frame = Some key\<close>
                have "pulled_frames d latest m (rpc # rpcs) = [frame]"
                  by (auto simp: not_less)
                ultimately show ?thesis
                  using None \<open>producer_key frame = Some key\<close>
                  by (simp add: dataTimeReel_Insert_def split: if_splits)
              next
                case False
                with frame ok \<open>producer_key frame = Some key\<close> None Cons.prems
                have "sync_loop d ?e1 ?c1 frame m rpcs = (res, e', c')"
                  by (auto simp: Let_def)
                from Cons.IH [OF this] have ih: "e' = ?e1\<lparr>dataTimeReel := dataTimeReel ?e1
                    @ map (\<lambda>f. (f, True))
                        (filter (\<lambda>f. VerifyDataClockFrame d f = None) (pulled_frames d frame m rpcs))\<rparr>"
                  "c' \<longrightarrow> ?c1 \<and> (\<forall>f \<in> set (pulled_frames d frame m rpcs).
                         \<exists>key. producer_key f = Some key \<and> IsInProverTrie d key)"
                  by blast+
                from False have "FrameNumber frame < m"
                  by simp
                with None frame ok \<open>producer_key frame = Some key\<close>
                have p: "pulled_frames d latest m (rpc # rpcs) = frame # pulled_frames d frame m rpcs"
                  by (auto simp: not_less)
                from ih(1) None have "e' = e\<lparr>dataTimeReel := dataTimeReel e
                    @ map (\<lambda>f. (f, True))
                        (filter (\<lambda>f. VerifyDataClockFrame d f = None)
                           (frame # pulled_frames d frame m rpcs))\<rparr>"
                  by (simp add: dataTimeReel_Insert_def)
                moreover from ih(2) \<open>producer_key frame = Some key\<close>
                have "c' \<longrightarrow> c \<and> (\<forall>f \<in> set (frame # pulled_frames d frame m rpcs).
                         \<exists>key. producer_key f = Some key \<and> IsInProverTrie d key)"
                  by (cases "IsInProverTrie d key") simp_all
                ultimately show ?thesis
                  by (simp only: p)
              qed
            qed
          qed
        qed
      qed
    qed
  qed
qed

lemma mark_uncooperative_moves:
  assumes "map_of (peerMap e) peer = Some info"
  shows "uncooperativePeersMap (sync_deferred d peer False e) peer
           = Some (info\<lparr>timestamp := time_Now d\<rparr>)
       \<and> map_of (peerMap (sync_deferred d peer False e)) peer = None
       \<and> dataTimeReel (sync_deferred d peer False e) = dataTimeReel e"
  using assms
  by (simp add: sync_deferred_def mark_uncooperative_def map_of_eq_None_iff image_iff)

text \<open>
  Claim C2, as amended. In every session that opens its channel and pulls a frame
  whose producer key is not in the prover trie, the peer, when the peer map holds it, is
  moved to the uncooperative map on exit, stamped with the time of the demotion.
  The session is not ended by it: every pulled frame that verifies is inserted into
  the time reel, that frame and the frames pulled after it included.
\<close>

theorem sync_foreign_producer_demoted:
  assumes "GetDirectChannel session = None"
    and "frame \<in> set (pulled_frames d latest max_frame (GetDataFrame session))"
    and "producer_key frame = Some key" and "\<not> IsInProverTrie d key"
    and "map_of (peerMap e) peer = Some info"
  shows "uncooperativePeersMap (snd (sync d e latest max_frame peer session)) peer
           = Some (info\<lparr>timestamp := time_Now d\<rparr>)
     \<and> map_of (peerMap (snd (sync d e latest max_frame peer session))) peer = None
     \<and> (\<forall>f \<in> set (pulled_frames d latest max_frame (GetDataFrame session)).
           VerifyDataClockFrame d f = None
           \<longrightarrow> (f, True) \<in> set (dataTimeReel (snd (sync d e latest max_frame peer session))))"
proof -
  let ?e0 = "e\<lparr>syncingStatus := SyncStatusSynchronizing\<rparr>"
  obtain res e1 c1 where
    loop: "sync_loop d ?e0 True latest max_frame (GetDataFrame session) = (res, e1, c1)"
    by (cases "sync_loop d ?e0 True latest max_frame (GetDataFrame session)")
  note p = sync_loop_pulled [OF loop]
  from p assms(2,3,4) have c1: "c1 = False"
    by auto
  from p have e1: "peerMap e1 = peerMap e"
    "dataTimeReel e1 = dataTimeReel e @ map (\<lambda>f. (f, True))
       (filter (\<lambda>f. VerifyDataClockFrame d f = None)
          (pulled_frames d latest max_frame (GetDataFrame session)))"
    by simp_all
  from assms(1) loop c1 have run: "snd (sync d e latest max_frame peer session) = sync_deferred d peer False e1"
    by (simp add: sync_def)
  from assms(5) e1(1) have "map_of (peerMap e1) peer = Some info"
    by simp
  from mark_uncooperative_moves [OF this, of d] e1(2) show ?thesis
    by (simp add: run)
qed

theorem sync_foreign_producer_demoted_witness:
  "uncooperativePeersMap
      (snd (sync example_sync_deps example_follower (example_frame 5 10) 8 [1] foreign_session)) [1]
     = Some \<lparr>peerId = [1], maxFrame = 8, timestamp = 999, version = [2, 0, 3]\<rparr>
   \<and> map_of (peerMap
        (snd (sync example_sync_deps example_follower (example_frame 5 10) 8 [1] foreign_session))) [1]
     = None"
proof -
  have h1: "GetDirectChannel foreign_session = None"
    by (simp add: foreign_session_def)
  have h2: "foreign_frame 6 10
      \<in> set (pulled_frames example_sync_deps (example_frame 5 10) 8 (GetDataFrame foreign_session))"
    by (simp add: foreign_session_def reply_def foreign_frame_def example_frame_def
        producer_key_def example_sync_deps_def)
  have h3: "producer_key (foreign_frame 6 10) = Some [2]"
    by (simp add: foreign_frame_def producer_key_def)
  have h4: "\<not> IsInProverTrie example_sync_deps [2]"
    by (simp add: example_sync_deps_def)
  have h5: "map_of (peerMap example_follower) [1]
      = Some \<lparr>peerId = [1], maxFrame = 8, timestamp = 200, version = [2, 0, 3]\<rparr>"
    by (simp add: example_follower_def example_peer_def)
  from sync_foreign_producer_demoted [OF h1 h2 h3 h4 h5] show ?thesis
    by (simp add: example_sync_deps_def)
qed

text \<open>
  The claim C2 as stated fails: frame 6 comes from a producer outside the trie, yet it is
  verified and inserted, and the loop goes on to request, receive and insert frame 7.
\<close>

theorem sync_foreign_producer_counterexample:
  "producer_key (foreign_frame 6 10) = Some [2]
   \<and> \<not> IsInProverTrie example_sync_deps [2]
   \<and> fst (sync example_sync_deps example_follower (example_frame 5 10) 8 [1] foreign_session)
      = Return (Some (example_frame 7 11), None)
   \<and> dataTimeReel
        (snd (sync example_sync_deps example_follower (example_frame 5 10) 8 [1] foreign_session))
      = [(foreign_frame 6 10, True), (example_frame 7 11, True)]"
  by (simp add: example_sync_unfold foreign_session_def)

lemma sync_loop_nil_response:
  "sync_loop d e c latest m (pre @ Inr None # rest) = sync_loop d e c latest m pre"
proof (induction pre arbitrary: e c latest)
  case Nil
  show ?case by simp
next
  case (Cons rpc pre)
  show ?case
    by (simp add: Cons.IH Let_def
        cong: sum.case_cong option.case_cong if_cong)
qed

text \<open>
  Claim C4, as amended. A nil response ends the session there: whatever the peer would
  have answered afterwards is not requested, and \<open>sync\<close> returns exactly what it
  returns when the engine begins stopping at that request, the latest frame with a nil
  error. The nil response does not clear the flag \<open>cooperative\<close>: when the first
  response is nil, the peer map and the uncooperative map are unchanged.
\<close>

theorem sync_nil_response:
  "sync d e latest max_frame peer \<lparr>GetDirectChannel = None, GetDataFrame = pre @ Inr None # rest\<rparr>
     = sync d e latest max_frame peer \<lparr>GetDirectChannel = None, GetDataFrame = pre\<rparr>
   \<and> sync d e latest max_frame peer \<lparr>GetDirectChannel = None, GetDataFrame = Inr None # rest\<rparr>
     = (Return (Some latest, None), e\<lparr>syncingStatus := SyncStatusNotSyncing\<rparr>)"
  by (simp add: sync_def sync_loop_nil_response sync_deferred_def mark_uncooperative_def)

text \<open>
  The claim C4 as stated fails: after a session whose only response is nil, the peer
  [1] is still in the peer map and not in the uncooperative map.
\<close>

theorem sync_nil_response_counterexample:
  "sync example_sync_deps example_follower (example_frame 5 10) 8 [1]
      \<lparr>GetDirectChannel = None, GetDataFrame = [Inr None]\<rparr>
     = (Return (Some (example_frame 5 10), None), example_follower)
   \<and> map_of (peerMap example_follower) [1]
       = Some \<lparr>peerId = [1], maxFrame = 8, timestamp = 200, version = [2, 0, 3]\<rparr>
   \<and> uncooperativePeersMap example_follower [1] = None"
  by (simp add: example_sync_unfold)

text \<open>
  Once \<open>latest\<close> is nil, the next candidate or the next pass panics.
\<close>

lemma collect_nil_latest:
  "collect_candidates d e None (candidate # candidates) sessions = Some (Panic, e, sessions)"
  "collect_loop (Suc fuel) r d e None sessions = Some (Panic, e)"
  by simp_all

text \<open>
  Claim C3 at a failing input. The follower at frame 5 sees the peers [2] and [1] ahead,
  in this order. Peer [2] answers with a frame 6 that fails \<open>VerifyDataClockFrame\<close>:
  \<open>sync\<close> returns a nil frame with the wrapped error and leaves the peer maps alone.
  \<open>collect\<close> stores the nil frame in \<open>latest\<close>, logs the error, and panics when it
  reads \<open>latest.FrameNumber\<close> for the next candidate; peer [1], whose session would
  have brought frames 6 to 8, is never asked.
\<close>

theorem collect_panics_after_verification_failure:
  "GetAheadPeers example_registry example_follower 5
     = Return [\<lparr>PeerID = [2], MaxFrame = 12\<rparr>, \<lparr>PeerID = [1], MaxFrame = 8\<rparr>]
   \<and> sync example_sync_deps example_follower (example_frame 5 10) 12 [2] unverifiable_session
     = (Return (None, Some (Wrap (Error ''vdf'') ''sync'')), example_follower)
   \<and> collect 2 example_registry example_sync_deps example_follower (example_frame 5 10)
        [unverifiable_session, example_session]
     = Some (Panic, example_follower)"
proof -
  have peers: "GetAheadPeers example_registry example_follower 5
     = Return [\<lparr>PeerID = [2], MaxFrame = 12\<rparr>, \<lparr>PeerID = [1], MaxFrame = 8\<rparr>]"
    by (simp add: registry_unfold)
  have failed: "sync example_sync_deps example_follower (example_frame 5 10) 12 [2]
      unverifiable_session
     = (Return (None, Some (Wrap (Error ''vdf'') ''sync'')), example_follower)"
    by (simp add: example_sync_unfold unverifiable_session_def)
  have head: "max (FrameNumber (example_frame 5 10)) (latestFrameReceived example_follower) = 5"
    by (simp add: example_frame_def example_follower_def)
  have inner: "collect_candidates example_sync_deps example_follower (Some (example_frame 5 10))
      [\<lparr>PeerID = [2], MaxFrame = 12\<rparr>, \<lparr>PeerID = [1], MaxFrame = 8\<rparr>]
      [unverifiable_session, example_session]
     = Some (Panic, example_follower, [example_session])"
    by (simp add: head failed)
  have "collect_loop (Suc (Suc 0)) example_registry example_sync_deps example_follower
      (Some (example_frame 5 10)) [unverifiable_session, example_session]
     = Some (Panic, example_follower)"
    by (simp add: head peers inner del: collect_candidates.simps)
  with peers failed show ?thesis
    by (simp add: collect_def numeral_2_eq_2)
qed

end
